theory Spec2Isabelle
  imports Complex_Main
begin

section \<open>JavaScript string primitives used by the program\<close>

text \<open>
  A JavaScript string is a sequence of code units; \<open>length\<close>, \<open>substring\<close>,
  \<open>lastIndexOf\<close> and \<open>trim\<close> all count code units. The model takes
  \<^typ>\<open>string\<close> (a list of \<^typ>\<open>char\<close>), one \<^typ>\<open>char\<close> per code unit, so it covers the
  texts whose code units are below 256. Numbers are \<^typ>\<open>int\<close>: \<open>maxChars\<close>, the
  numeric selectors and the offsets are taken to be integers, of either sign (the
  type \<open>number\<close> also has fractions, \<open>NaN\<close> and the infinities, which the model
  leaves out), and on integers of these sizes the arithmetic of JavaScript numbers
  is exact.
\<close>

text \<open>
  \<open>s.substring(a, b)\<close>: both indices are clamped to \<open>[0, length]\<close> and swapped when
  \<open>a > b\<close>.
\<close>

definition substring :: "string \<Rightarrow> int \<Rightarrow> int \<Rightarrow> string" where
  "substring s a b =
     (let n = int (length s);
          a' = min (max a 0) n;
          b' = min (max b 0) n
      in take (nat (max a' b' - min a' b')) (drop (nat (min a' b')) s))"

text \<open>\<open>s.substring(a)\<close>: the end defaults to the length.\<close>

definition substringFrom :: "string \<Rightarrow> int \<Rightarrow> string" where
  "substringFrom s a = substring s a (int (length s))"

text \<open>
  \<open>s.lastIndexOf(c, pos)\<close> for a one-character needle: the greatest index \<open>k\<close> with
  \<open>k \<le> pos\<close> (\<open>pos\<close> clamped to \<open>[0, length - 1]\<close>) and \<open>s[k] = c\<close>, or \<open>-1\<close>.
\<close>

fun lastIndexUpto :: "string \<Rightarrow> char \<Rightarrow> nat \<Rightarrow> int" where
  "lastIndexUpto s c 0 = (if 0 < length s \<and> s ! 0 = c then 0 else - 1)"
| "lastIndexUpto s c (Suc k) =
     (if Suc k < length s \<and> s ! Suc k = c then int (Suc k) else lastIndexUpto s c k)"

definition lastIndexOf :: "string \<Rightarrow> char \<Rightarrow> int \<Rightarrow> int" where
  "lastIndexOf s c pos = lastIndexUpto s c (nat (max pos 0))"

text \<open>
  \<open>s.trim()\<close> removes white space and line terminators from both ends. Below 256
  these are TAB, LF, VT, FF, CR, SPACE and NBSP.
\<close>

definition isWhiteSpace :: "char \<Rightarrow> bool" where
  "isWhiteSpace c \<longleftrightarrow>
     c \<in> set [CHR 0x09, CHR ''\<newline>'', CHR 0x0B, CHR 0x0C, CHR 0x0D, CHR '' '', CHR 0xA0]"

definition trim :: "string \<Rightarrow> string" where
  "trim s = rev (dropWhile isWhiteSpace (rev (dropWhile isWhiteSpace s)))"

text \<open>
  \<open>s.toLowerCase()\<close>: below 256 the letters with a lower-case form are \<open>A\<close>-\<open>Z\<close>
  and the Latin-1 capitals \<open>0xC0\<close>-\<open>0xDE\<close> except the multiplication sign \<open>0xD7\<close>;
  each moves up by 32.
\<close>

definition lowerChar :: "char \<Rightarrow> char" where
  "lowerChar c =
     (let n = (of_char c :: nat)
      in if (65 \<le> n \<and> n \<le> 90) \<or> (192 \<le> n \<and> n \<le> 222 \<and> n \<noteq> 215)
         then char_of (n + 32) else c)"

definition toLowerCase :: "string \<Rightarrow> string" where
  "toLowerCase s = map lowerChar s"

text \<open>\<open>s.includes(t)\<close>: \<open>t\<close> occurs in \<open>s\<close> as a contiguous run.\<close>

fun str_includes :: "string \<Rightarrow> string \<Rightarrow> bool" where
  "str_includes [] t = (t = [])"
| "str_includes (c # cs) t = (take (length t) (c # cs) = t \<or> str_includes cs t)"

text \<open>\<open>xs.findIndex(p)\<close>: the index of the first element satisfying \<open>p\<close>, or \<open>-1\<close>.\<close>

fun findIndex :: "('a \<Rightarrow> bool) \<Rightarrow> 'a list \<Rightarrow> int" where
  "findIndex p [] = - 1"
| "findIndex p (x # xs) =
     (if p x then 0 else (let i = findIndex p xs in if i < 0 then - 1 else i + 1))"

text \<open>\<open>s.split(d)\<close> for a one-character separator, and \<open>xs.join(sep)\<close>.\<close>

fun split :: "char \<Rightarrow> string \<Rightarrow> string list" where
  "split d [] = [[]]"
| "split d (c # cs) =
     (if c = d then [] # split d cs
      else (case split d cs of w # ws \<Rightarrow> (c # w) # ws | [] \<Rightarrow> [[c]]))"

fun join :: "string \<Rightarrow> string list \<Rightarrow> string" where
  "join sep [] = []"
| "join sep [x] = x"
| "join sep (x # y # ys) = x @ sep @ join sep (y # ys)"

text \<open>Decimal rendering of an integer, as \<open>JSON.stringify\<close> and template literals do.\<close>

function showNat :: "nat \<Rightarrow> string" where
  "showNat n =
     (if n < 10 then [char_of (48 + n)] else showNat (n div 10) @ [char_of (48 + n mod 10)])"
  by pat_completeness auto
termination
  by (relation "measure id") auto

declare showNat.simps [simp del]

definition showInt :: "int \<Rightarrow> string" where
  "showInt i = (if i < 0 then CHR ''-'' # showNat (nat (- i)) else showNat (nat i))"

section \<open>The paginator: \<open>truncateMarkdown\<close>\<close>

record Truncation =
  markdown :: string
  hasMore :: bool
  nextOffset :: int
  originalLength :: "int option"

definition truncationMarker :: string where
  "truncationMarker = ''\<newline>\<newline>[... Truncated ...]''"

text \<open>
  The source compares \<open>lastNewline > start + maxChars * 0.8\<close>; the product is taken
  in \<^typ>\<open>real\<close>. For integers below \<open>2^50\<close> the rounding of the floating-point
  product does not change the outcome of the comparison with an integer.
\<close>

definition truncateMarkdown :: "string \<Rightarrow> int \<Rightarrow> int \<Rightarrow> Truncation" where
  "truncateMarkdown md maxChars offset =
     (let start = offset in
      if start \<ge> int (length md) then
        \<lparr>markdown = '''', hasMore = False, nextOffset = start, originalLength = None\<rparr>
      else if int (length md) - start \<le> maxChars then
        \<lparr>markdown = substringFrom md start, hasMore = False,
         nextOffset = int (length md), originalLength = None\<rparr>
      else
        (let end0 = start + maxChars;
             lastNewline = lastIndexOf md (CHR ''\<newline>'') end0;
             end1 = (if real_of_int lastNewline > real_of_int start + real_of_int maxChars * 0.8
                     then lastNewline else end0)
         in \<lparr>markdown = trim (substring md start end1) @ truncationMarker,
             hasMore = True, nextOffset = end1,
             originalLength = Some (int (length md))\<rparr>))"

text \<open>The part of a returned chunk that precedes the truncation marker.\<close>

definition beforeMarker :: "Truncation \<Rightarrow> string" where
  "beforeMarker r =
     (if hasMore r then take (length (markdown r) - length truncationMarker) (markdown r)
      else markdown r)"

text \<open>The offset at which the third exit of \<open>truncateMarkdown\<close> cuts.\<close>

definition cutEnd :: "string \<Rightarrow> int \<Rightarrow> int \<Rightarrow> int" where
  "cutEnd md maxChars start =
     (let end0 = start + maxChars;
          lastNewline = lastIndexOf md (CHR ''\<newline>'') end0
      in if real_of_int lastNewline > real_of_int start + real_of_int maxChars * 0.8
         then lastNewline else end0)"

section \<open>The URL normalizer: \<open>convertGithubToRaw\<close>\<close>

text \<open>
  \<open>new URL(url)\<close> is the platform's parser. It is a parameter of the model: it
  yields the \<open>hostname\<close> and \<open>pathname\<close> of the parsed URL, or nothing when the
  constructor throws on a malformed URL.
\<close>

record ParsedURL =
  hostname :: string
  pathname :: string

type_synonym URLParser = "string \<Rightarrow> ParsedURL option"

definition convertGithubToRaw :: "URLParser \<Rightarrow> string \<Rightarrow> string" where
  "convertGithubToRaw newURL url =
     (case newURL url of
        None \<Rightarrow> url
      | Some parsed \<Rightarrow>
          if hostname parsed = ''github.com'' then
            (let parts = filter (\<lambda>p. p \<noteq> []) (split (CHR ''/'') (pathname parsed)) in
             if length parts \<ge> 4 \<and> parts ! 2 = ''blob'' then
               (let user = parts ! 0;
                    repo = parts ! 1;
                    branch = parts ! 3;
                    filePath = join ''/'' (drop 4 parts)
                in ''https://raw.githubusercontent.com/'' @ user @ ''/'' @ repo @ ''/''
                   @ branch @ ''/'' @ filePath)
             else url)
          else url)"

section \<open>The heading indexer: \<open>extractHeadings\<close> and \<open>buildTOC\<close>\<close>

record Heading =
  level :: int
  htext :: string
  position :: nat

text \<open>
  \<open>extractHeadings\<close> runs the regular expression
  \<^verbatim>\<open>/<h([1-3])[^>]*>(.*?)<\/h\1>/gi\<close> over the fragment. An attempt at one index
  reads \<open><h\<close> (either case) and a digit from 1 to 3, skips to the first \<open>>\<close>, then
  takes the shortest run of characters other than line terminators that is
  followed by the closing tag of the same level.
\<close>

fun matchOpen :: "string \<Rightarrow> (char \<times> string) option" where
  "matchOpen (a # b # d # rest) =
     (if a = CHR ''<'' \<and> (b = CHR ''h'' \<or> b = CHR ''H'') \<and> d \<in> set ''123''
      then Some (d, rest) else None)"
| "matchOpen _ = None"

definition skipAttributes :: "string \<Rightarrow> string option" where
  "skipAttributes s =
     (case dropWhile (\<lambda>c. c \<noteq> CHR ''>'') s of [] \<Rightarrow> None | _ # after \<Rightarrow> Some after)"

definition isClosingTag :: "char \<Rightarrow> string \<Rightarrow> bool" where
  "isClosingTag d s =
     (case s of
        a # b # c # e # f # _ \<Rightarrow>
          a = CHR ''<'' \<and> b = CHR ''/'' \<and> (c = CHR ''h'' \<or> c = CHR ''H'') \<and> e = d \<and> f = CHR ''>''
      | _ \<Rightarrow> False)"

definition isLineTerminator :: "char \<Rightarrow> bool" where
  "isLineTerminator c \<longleftrightarrow> c = CHR ''\<newline>'' \<or> c = CHR 0x0D"

text \<open>The captured text and the number of characters read up to the end of the closing tag.\<close>

fun matchBody :: "char \<Rightarrow> string \<Rightarrow> (string \<times> nat) option" where
  "matchBody d [] = None"
| "matchBody d (c # cs) =
     (if isClosingTag d (c # cs) then Some ([], 5)
      else if isLineTerminator c then None
      else (case matchBody d cs of None \<Rightarrow> None | Some (t, n) \<Rightarrow> Some (c # t, Suc n)))"

text \<open>One attempt: the level digit, the captured text and the length of the match.\<close>

definition matchHeading :: "string \<Rightarrow> (char \<times> string \<times> nat) option" where
  "matchHeading s =
     (case matchOpen s of
        None \<Rightarrow> None
      | Some (d, rest) \<Rightarrow>
          (case skipAttributes rest of
             None \<Rightarrow> None
           | Some after \<Rightarrow>
               (case matchBody d after of
                  None \<Rightarrow> None
                | Some (t, n) \<Rightarrow> Some (d, t, (length s - length after) + n))))"

text \<open>\<open>t.replace(/<[^>]*>/g, '')\<close>: every \<open><\<close> with a later \<open>>\<close> goes, up to that \<open>>\<close>.\<close>

function stripTags :: "string \<Rightarrow> string" where
  "stripTags [] = []"
| "stripTags (c # cs) =
     (if c = CHR ''<'' \<and> CHR ''>'' \<in> set cs
      then stripTags (tl (dropWhile (\<lambda>x. x \<noteq> CHR ''>'') cs))
      else c # stripTags cs)"
  by pat_completeness auto
termination
proof (relation "measure length")
  fix c :: char and cs :: string
  have "length (tl (dropWhile (\<lambda>x. x \<noteq> CHR ''>'') cs)) \<le> length cs"
    using length_dropWhile_le [of "\<lambda>x. x \<noteq> CHR ''>''" cs] by simp
  then show "(tl (dropWhile (\<lambda>x. x \<noteq> CHR ''>'') cs), c # cs) \<in> measure length"
    by simp
qed simp_all

definition digitValue :: "char \<Rightarrow> int" where
  "digitValue d = int (of_char d) - 48"

text \<open>
  The scanning loop of \<open>exec\<close> with the \<open>g\<close> flag: \<open>skip\<close> counts the characters
  of the last match that are still to be passed over, \<open>pos\<close> is the index of the
  head of the list in the fragment.
\<close>

fun scanHeadings :: "nat \<Rightarrow> nat \<Rightarrow> string \<Rightarrow> Heading list" where
  "scanHeadings pos skip [] = []"
| "scanHeadings pos skip (c # cs) =
     (if 0 < skip then scanHeadings (Suc pos) (skip - 1) cs
      else (case matchHeading (c # cs) of
              None \<Rightarrow> scanHeadings (Suc pos) 0 cs
            | Some (d, captured, n) \<Rightarrow>
                (let text = trim (stripTags captured) in
                 (if text \<noteq> [] then [\<lparr>level = digitValue d, htext = text, position = pos\<rparr>]
                  else [])
                 @ scanHeadings (Suc pos) (n - 1) cs)))"

definition extractHeadings :: "string \<Rightarrow> Heading list" where
  "extractHeadings html = scanHeadings 0 0 html"

definition buildTOC :: "Heading list \<Rightarrow> string option" where
  "buildTOC headings =
     (if length headings = 0 then None
      else Some (join ''\<newline>''
             (map (\<lambda>heading. concat (replicate (nat (level heading - 1)) ''  '')
                              @ ''- '' @ htext heading) headings)))"

section \<open>The section filter: \<open>filterContentByHeadings\<close>\<close>

text \<open>A selector is a number or a string.\<close>

datatype target = Num int | Str string

record FilterResult =
  f_html :: string
  filtered :: bool
  f_error :: "string option"

text \<open>
  The inner \<open>for\<close> loop: the position of the first of the later headings whose level
  is at most the matched one; the default is the length of the fragment.
\<close>

fun sectionEnd :: "Heading list \<Rightarrow> int \<Rightarrow> nat \<Rightarrow> nat" where
  "sectionEnd [] lv dflt = dflt"
| "sectionEnd (h # hs) lv dflt = (if level h \<le> lv then position h else sectionEnd hs lv dflt)"

definition targetIndex :: "Heading list \<Rightarrow> target \<Rightarrow> int" where
  "targetIndex headings tgt =
     (case tgt of
        Num n \<Rightarrow> n - 1
      | Str t \<Rightarrow>
          (let lower = toLowerCase t
           in findIndex (\<lambda>heading. str_includes (toLowerCase (htext heading)) lower) headings))"

text \<open>One turn of the outer loop, on the pair \<open>(combinedHtml, filtered)\<close>.\<close>

definition filterStep :: "string \<Rightarrow> Heading list \<Rightarrow> string \<times> bool \<Rightarrow> target \<Rightarrow> string \<times> bool" where
  "filterStep html headings acc tgt =
     (let index = targetIndex headings tgt in
      if index \<ge> 0 \<and> index < int (length headings) then
        (let start = position (headings ! nat index);
             end1 = sectionEnd (drop (nat index + 1) headings) (level (headings ! nat index))
                      (length html)
         in (fst acc @ substring html (int start) (int end1) @ ''\<newline>\<newline>'', True))
      else acc)"

definition filterContentByHeadings :: "string \<Rightarrow> Heading list \<Rightarrow> target list \<Rightarrow> FilterResult" where
  "filterContentByHeadings html headings targets =
     (let acc = foldl (filterStep html headings) ('''', False) targets
      in \<lparr>f_html = fst acc, filtered = snd acc,
          f_error = (if snd acc then None else Some ''No matching headings found'')\<rparr>)"

section \<open>The continuation store\<close>

text \<open>
  \<open>contentCache\<close> is a \<open>Map\<close> from keys to entries; the nested \<open>metadata.method\<close>
  is the field \<open>c_method\<close>. Times are the milliseconds of \<open>Date.now()\<close>.
\<close>

record CacheEntry =
  c_markdown :: string
  c_offset :: int
  c_url :: string
  c_title :: string
  c_method :: string
  c_timestamp :: int

type_synonym Cache = "string \<rightharpoonup> CacheEntry"

definition CACHE_TTL :: int where
  "CACHE_TTL = 5 * 60 * 1000"

text \<open>The body of the interval callback, run at the time \<open>now\<close>.\<close>

definition cleanup :: "int \<Rightarrow> Cache \<Rightarrow> Cache" where
  "cleanup now cache =
     (\<lambda>key. case cache key of
               None \<Rightarrow> None
             | Some v \<Rightarrow> if now - c_timestamp v > CACHE_TTL then None else Some v)"

definition clearWebFetchCache :: "Cache \<Rightarrow> Cache" where
  "clearWebFetchCache cache = Map.empty"

text \<open>
  \<open>generateCacheKey\<close>, for a numeric \<open>value\<close>; \<open>now\<close> is its reading of the clock.
  The readings of \<open>Date.now()\<close> within one call of the operation, for the key and
  for the timestamp of the entry, are taken as one instant.
\<close>

definition generateCacheKey :: "int \<Rightarrow> string \<Rightarrow> string \<Rightarrow> int \<Rightarrow> string" where
  "generateCacheKey now url type v =
     url @ '':'' @ type @ '':'' @ showInt v @ '':'' @ showInt now"

section \<open>Requests, results and errors\<close>

datatype error =
    ContinuationExpired
  | UrlRequired
  | FetchUnavailable
  | MaxCharsOutOfRange
  | HttpError int string
  | UnsupportedContentType string
  | BodyTooLarge int
  | TimeoutOutOfRange int
  | TransportFailure string
  | DomFailure

definition MAX_CHARS_LIMIT :: int where
  "MAX_CHARS_LIMIT = 200000"

text \<open>
  The messages that the program words itself. The message of \<open>BodyTooLarge\<close>
  prints a quotient and is left out, as are the platform's message of
  \<open>TimeoutOutOfRange\<close> and the library's message of \<open>DomFailure\<close>; a failure of the
  transport carries its own message.
\<close>

fun errorMessage :: "error \<Rightarrow> string option" where
  "errorMessage ContinuationExpired = Some ''Continuation token expired or invalid.''"
| "errorMessage UrlRequired = Some ''URL is required for initial fetch.''"
| "errorMessage FetchUnavailable = Some ''Fetch implementation is not available.''"
| "errorMessage MaxCharsOutOfRange =
     Some (''maxChars must be between 200 and '' @ showInt MAX_CHARS_LIMIT @ ''.'')"
| "errorMessage (HttpError st txt) = Some (''HTTP error! status: '' @ showInt st @ '' '' @ txt)"
| "errorMessage (UnsupportedContentType ct) = Some (''Unsupported content type: '' @ ct)"
| "errorMessage (BodyTooLarge n) = None"
| "errorMessage (TimeoutOutOfRange ms) = None"
| "errorMessage (TransportFailure m) = Some m"
| "errorMessage DomFailure = None"

record WebFetchResult =
  r_title :: string
  r_url :: string
  r_markdown :: string
  r_toc :: "string option"
  r_continuationToken :: "string option"
  r_method :: string

text \<open>
  The transport: what the program passes to \<open>fetchImpl\<close>, and what it reads of the
  response. A rejected promise (network failure, timeout) is an error.
\<close>

record FetchRequest =
  q_input :: string
  q_userAgent :: string
  q_timeout :: int

record FetchLikeResponse =
  ok :: bool
  status :: int
  statusText :: string
  contentTypeHeader :: "string option"
  body :: string

type_synonym FetchLike = "FetchRequest \<Rightarrow> error + FetchLikeResponse"

record WebFetchOptions =
  o_url :: "string option"
  o_maxChars :: "int option"
  o_headings :: "target list option"
  o_continuationToken :: "string option"
  o_timeoutMs :: "int option"
  o_userAgent :: "string option"
  o_maxBodySizeBytes :: "int option"
  o_fetchImpl :: "FetchLike option"

definition DEFAULT_MAX_CHARS :: int where
  "DEFAULT_MAX_CHARS = 10000"

definition DEFAULT_MAX_BODY_SIZE :: int where
  "DEFAULT_MAX_BODY_SIZE = 10 * 1024 * 1024"

definition MIN_READABILITY_LENGTH :: int where
  "MIN_READABILITY_LENGTH = 300"

definition MIN_SELECTOR_LENGTH :: int where
  "MIN_SELECTOR_LENGTH = 300"

definition DEFAULT_TIMEOUT_MS :: int where
  "DEFAULT_TIMEOUT_MS = 15000"

definition DEFAULT_USER_AGENT :: string where
  "DEFAULT_USER_AGENT = ''Mozilla/5.0 (compatible; WebFetch/1.0; +https://github.com/qduc/term2)''"

text \<open>
  The libraries and the platform are parameters of the model: the global \<open>fetch\<close>,
  the URL parser, \<open>AbortSignal.timeout\<close> (it throws a \<open>RangeError\<close> on a delay it
  does not accept: \<open>abortSignalTimeout\<close> tells whether it accepts the delay), JSDOM
  (its constructor throws on a bad \<open>url\<close> option), Readability
  (\<open>parse\<close> yields an article, or nothing when it returns \<open>null\<close> or throws, which
  the source treats alike), \<open>querySelector\<close>, \<open>document.title\<close>, the three
  regular-expression replacements of \<open>cleanHtml\<close>, and Turndown.
\<close>

record Article =
  a_content :: "string option"
  a_title :: "string option"
  a_length :: "int option"
  a_excerpt :: "string option"

record Element =
  textContent :: string
  innerHTML :: string

record 'doc Platform =
  globalFetch :: "FetchLike option"
  newURL :: URLParser
  abortSignalTimeout :: "int \<Rightarrow> bool"
  newJSDOM :: "string \<Rightarrow> string \<Rightarrow> 'doc option"
  readabilityParse :: "'doc \<Rightarrow> Article option"
  querySelector :: "'doc \<Rightarrow> string \<Rightarrow> Element option"
  documentTitle :: "'doc \<Rightarrow> string"
  cleanHtml :: "string \<Rightarrow> string"
  turndown :: "string \<Rightarrow> string"

text \<open>What a call can change: the store, and the calls made to the transport.\<close>

record World =
  contentCache :: Cache
  transportCalls :: "FetchRequest list"

text \<open>A string option is truthy when it is present and not empty.\<close>

definition truthy :: "string option \<Rightarrow> string option" where
  "truthy x = (case x of None \<Rightarrow> None | Some s \<Rightarrow> if s = [] then None else Some s)"

section \<open>Continuation: \<open>handleContinuation\<close>\<close>

definition handleContinuation ::
  "int \<Rightarrow> string \<Rightarrow> int \<Rightarrow> Cache \<Rightarrow> error + (WebFetchResult \<times> Cache)" where
  "handleContinuation now token maxChars cache =
     (case cache token of
        None \<Rightarrow> Inl ContinuationExpired
      | Some cached \<Rightarrow>
          (let result = truncateMarkdown (c_markdown cached) maxChars (c_offset cached);
               nextToken =
                 (if hasMore result
                  then Some (generateCacheKey now (c_url cached) ''continuation'' (nextOffset result))
                  else None);
               cache' =
                 (case nextToken of
                    None \<Rightarrow> cache
                  | Some key \<Rightarrow>
                      cache(key \<mapsto> cached\<lparr>c_offset := nextOffset result, c_timestamp := now\<rparr>))
           in Inr (\<lparr>r_title = c_title cached, r_url = c_url cached,
                    r_markdown = markdown result, r_toc = None,
                    r_continuationToken = nextToken, r_method = c_method cached\<rparr>,
                   cache')))"

section \<open>The content extractor\<close>

record ExtractedContent =
  x_html :: string
  x_title :: string
  x_excerpt :: "string option"

text \<open>\<open>doc.title || 'Untitled'\<close>.\<close>

definition titleOrUntitled :: "'doc Platform \<Rightarrow> 'doc \<Rightarrow> string" where
  "titleOrUntitled P doc = (if documentTitle P doc = [] then ''Untitled'' else documentTitle P doc)"

text \<open>The Readability tier; the second component is the \<open>method\<close> label.\<close>

definition tryReadability :: "'doc Platform \<Rightarrow> 'doc \<Rightarrow> (ExtractedContent \<times> string) option" where
  "tryReadability P doc =
     (case readabilityParse P doc of
        None \<Rightarrow> None
      | Some article \<Rightarrow>
          if (case a_length article of None \<Rightarrow> 0 | Some n \<Rightarrow> n) > MIN_READABILITY_LENGTH then
            Some (\<lparr>x_html = (case a_content article of None \<Rightarrow> '''' | Some c \<Rightarrow> c),
                   x_title = (case a_title article of None \<Rightarrow> titleOrUntitled P doc | Some t \<Rightarrow> t),
                   x_excerpt = a_excerpt article\<rparr>,
                  ''readability'')
          else None)"

text \<open>The selector tier: the loop over the fixed list of selectors.\<close>

fun trySelectors :: "'doc Platform \<Rightarrow> 'doc \<Rightarrow> string list \<Rightarrow> (ExtractedContent \<times> string) option" where
  "trySelectors P doc [] = None"
| "trySelectors P doc (selector # rest) =
     (case querySelector P doc selector of
        None \<Rightarrow> trySelectors P doc rest
      | Some element \<Rightarrow>
          if int (length (trim (textContent element))) > MIN_SELECTOR_LENGTH then
            Some (\<lparr>x_html = innerHTML element, x_title = titleOrUntitled P doc, x_excerpt = None\<rparr>,
                  ''selector:'' @ selector)
          else trySelectors P doc rest)"

definition extractContent :: "'doc Platform \<Rightarrow> string \<Rightarrow> 'doc \<Rightarrow> ExtractedContent \<times> string" where
  "extractContent P html doc =
     (case tryReadability P doc of
        Some found \<Rightarrow> found
      | None \<Rightarrow>
          (case trySelectors P doc [''main'', ''article'', ''#content'', ''.content'', ''.main''] of
             Some found \<Rightarrow> found
           | None \<Rightarrow>
               (\<lparr>x_html = cleanHtml P html, x_title = titleOrUntitled P doc, x_excerpt = None\<rparr>,
                ''basic-clean'')))"

section \<open>The operation: \<open>fetchWebPage\<close>\<close>

text \<open>
  The body of \<open>fetchWebPage\<close> after the continuation branch is modelled in two
  parts. \<open>fetchAndExtract\<close> is the validation, the transport call, the two gates and
  the extraction; it yields the URL, the extracted content and the method label.
  The arguments of \<open>fetchImpl\<close> are evaluated before the call, so a delay that
  \<open>AbortSignal.timeout\<close> refuses ends the operation before the transport is
  called.
\<close>

definition fetchAndExtract ::
  "'doc Platform \<Rightarrow> WebFetchOptions \<Rightarrow> World
     \<Rightarrow> (error + (string \<times> ExtractedContent \<times> string)) \<times> World" where
  "fetchAndExtract P options w =
     (let maxChars1 = (case o_maxChars options of None \<Rightarrow> DEFAULT_MAX_CHARS | Some n \<Rightarrow> n);
          timeoutMs1 = (case o_timeoutMs options of None \<Rightarrow> DEFAULT_TIMEOUT_MS | Some n \<Rightarrow> n);
          userAgent1 = (case o_userAgent options of None \<Rightarrow> DEFAULT_USER_AGENT | Some s \<Rightarrow> s);
          maxBodySizeBytes1 =
            (case o_maxBodySizeBytes options of None \<Rightarrow> DEFAULT_MAX_BODY_SIZE | Some n \<Rightarrow> n);
          fetchImpl1 = (case o_fetchImpl options of None \<Rightarrow> globalFetch P | Some f \<Rightarrow> Some f)
      in case truthy (o_url options) of
           None \<Rightarrow> (Inl UrlRequired, w)
         | Some url1 \<Rightarrow>
             (case fetchImpl1 of
                None \<Rightarrow> (Inl FetchUnavailable, w)
              | Some fetch \<Rightarrow>
                  if maxChars1 < 200 \<or> maxChars1 > MAX_CHARS_LIMIT then (Inl MaxCharsOutOfRange, w)
                  else
                    (let effectiveUrl = convertGithubToRaw (newURL P) url1;
                         request = \<lparr>q_input = effectiveUrl, q_userAgent = userAgent1,
                                    q_timeout = timeoutMs1\<rparr>;
                         w1 = w\<lparr>transportCalls := transportCalls w @ [request]\<rparr>
                     in if \<not> abortSignalTimeout P timeoutMs1
                        then (Inl (TimeoutOutOfRange timeoutMs1), w)
                        else case fetch request of
                          Inl e \<Rightarrow> (Inl e, w1)
                        | Inr response \<Rightarrow>
                            if \<not> ok response then
                              (Inl (HttpError (status response) (statusText response)), w1)
                            else
                              (let contentType =
                                     (case contentTypeHeader response of None \<Rightarrow> '''' | Some c \<Rightarrow> c)
                               in if \<not> str_includes contentType ''text/html''
                                     \<and> \<not> str_includes contentType ''application/xhtml+xml''
                                     \<and> \<not> str_includes contentType ''text/plain''
                                     \<and> \<not> str_includes contentType ''text''
                                     \<and> \<not> str_includes contentType ''json''
                                     \<and> \<not> str_includes contentType ''xml''
                                  then (Inl (UnsupportedContentType contentType), w1)
                                  else
                                    (let html = body response in
                                     if int (length html) > maxBodySizeBytes1
                                     then (Inl (BodyTooLarge maxBodySizeBytes1), w1)
                                     else
                                       (case newJSDOM P html url1 of
                                          None \<Rightarrow> (Inl DomFailure, w1)
                                        | Some doc \<Rightarrow>
                                            (Inr (url1, extractContent P html doc), w1)))))))"

text \<open>
  \<open>renderResult\<close> is the rest: headings, table of contents, filtering, conversion,
  truncation and the minting of the continuation token.
\<close>

definition renderResult ::
  "'doc Platform \<Rightarrow> int \<Rightarrow> int \<Rightarrow> target list option \<Rightarrow> string \<times> ExtractedContent \<times> string
     \<Rightarrow> Cache \<Rightarrow> WebFetchResult \<times> Cache" where
  "renderResult P now maxChars1 selectors fetched cache =
     (let url1 = fst fetched;
          extractedContent = fst (snd fetched);
          method = snd (snd fetched);
          allHeadings = extractHeadings (x_html extractedContent);
          toc = buildTOC allHeadings;
          filteredHtml =
            (case selectors of
               None \<Rightarrow> x_html extractedContent
             | Some targets \<Rightarrow>
                 if length targets > 0 then
                   (let filterResult =
                          filterContentByHeadings (x_html extractedContent) allHeadings targets
                    in if f_error filterResult = None \<and> filtered filterResult
                       then f_html filterResult else x_html extractedContent)
                 else x_html extractedContent);
          truncationResult = truncateMarkdown (turndown P filteredHtml) maxChars1 0;
          nextContinuationToken =
            (if hasMore truncationResult \<and> length allHeadings = 0
             then Some (generateCacheKey now url1 ''continuation'' (nextOffset truncationResult))
             else None);
          cache' =
            (case nextContinuationToken of
               None \<Rightarrow> cache
             | Some key \<Rightarrow>
                 cache(key \<mapsto>
                   \<lparr>c_markdown = turndown P (x_html extractedContent),
                    c_offset = nextOffset truncationResult,
                    c_url = url1, c_title = x_title extractedContent,
                    c_method = method, c_timestamp = now\<rparr>))
      in (\<lparr>r_title = x_title extractedContent, r_url = url1,
           r_markdown = markdown truncationResult, r_toc = toc,
           r_continuationToken = nextContinuationToken, r_method = method\<rparr>,
          cache'))"

definition fetchWebPage ::
  "'doc Platform \<Rightarrow> int \<Rightarrow> WebFetchOptions \<Rightarrow> World \<Rightarrow> (error + WebFetchResult) \<times> World" where
  "fetchWebPage P now options w =
     (let maxChars1 = (case o_maxChars options of None \<Rightarrow> DEFAULT_MAX_CHARS | Some n \<Rightarrow> n)
      in case truthy (o_continuationToken options) of
           Some token \<Rightarrow>
             (case handleContinuation now token maxChars1 (contentCache w) of
                Inl e \<Rightarrow> (Inl e, w)
              | Inr found \<Rightarrow> (Inr (fst found), w\<lparr>contentCache := snd found\<rparr>))
         | None \<Rightarrow>
             (case fetchAndExtract P options w of
                (Inl e, w1) \<Rightarrow> (Inl e, w1)
              | (Inr fetched, w1) \<Rightarrow>
                  (let rendered = renderResult P now maxChars1 (o_headings options) fetched
                                    (contentCache w1)
                   in (Inr (fst rendered), w1\<lparr>contentCache := snd rendered\<rparr>))))"

section \<open>The claims' own notions\<close>

subsection \<open>Sections of a fragment, as the specification words them\<close>

text \<open>
  A selector resolves to at most one heading: a number \<open>n\<close> to the heading at
  index \<open>n - 1\<close>, a string to the first heading, in document order, whose text
  contains it when case is ignored.
\<close>

definition containsIgnoringCase :: "string \<Rightarrow> string \<Rightarrow> bool" where
  "containsIgnoringCase s t =
     list_ex (\<lambda>i. take (length t) (drop i (toLowerCase s)) = toLowerCase t) [0..<Suc (length s)]"

definition resolveSelector :: "Heading list \<Rightarrow> target \<Rightarrow> nat option" where
  "resolveSelector hs tgt =
     (case tgt of
        Num n \<Rightarrow> (if 1 \<le> n \<and> n \<le> int (length hs) then Some (nat (n - 1)) else None)
      | Str t \<Rightarrow>
          (case filter (\<lambda>i. containsIgnoringCase (htext (hs ! i)) t) [0..<length hs] of
             [] \<Rightarrow> None
           | i # _ \<Rightarrow> Some i))"

text \<open>
  The span of the heading at index \<open>i\<close>: from its position up to the position of
  the next heading whose level is at most its own, or to the end of the fragment.
\<close>

definition sectionSpan :: "string \<Rightarrow> Heading list \<Rightarrow> nat \<Rightarrow> string" where
  "sectionSpan html hs i =
     (let stop = (case filter (\<lambda>j. level (hs ! j) \<le> level (hs ! i)) [Suc i..<length hs] of
                    [] \<Rightarrow> length html
                  | j # _ \<Rightarrow> position (hs ! j))
      in take (stop - position (hs ! i)) (drop (position (hs ! i)) html))"

text \<open>The matched spans in selector order, each followed by a blank line.\<close>

definition selectedSections :: "string \<Rightarrow> Heading list \<Rightarrow> target list \<Rightarrow> string" where
  "selectedSections html hs targets =
     concat (map (\<lambda>tgt. case resolveSelector hs tgt of
                          None \<Rightarrow> []
                        | Some i \<Rightarrow> sectionSpan html hs i @ ''\<newline>\<newline>'') targets)"

subsection \<open>The shape of a blob URL\<close>

text \<open>
  The segments of a path are its maximal non-empty runs of characters other than
  \<open>/\<close>. A path has the shape \<open>/{user}/{repo}/blob/{branch}/{path...}\<close> when its
  segments are a user, a repository, the word \<open>blob\<close>, a branch, and then the
  segments of the file path.
\<close>

fun segmentsFrom :: "string \<Rightarrow> string \<Rightarrow> string list" where
  "segmentsFrom cur [] = (if cur = [] then [] else [cur])"
| "segmentsFrom cur (c # cs) =
     (if c = CHR ''/'' then (if cur = [] then [] else [cur]) @ segmentsFrom [] cs
      else segmentsFrom (cur @ [c]) cs)"

definition pathSegments :: "string \<Rightarrow> string list" where
  "pathSegments p = segmentsFrom [] p"

definition isBlobUrl :: "URLParser \<Rightarrow> string \<Rightarrow> bool" where
  "isBlobUrl parse url =
     (case parse url of
        None \<Rightarrow> False
      | Some parsed \<Rightarrow>
          hostname parsed = ''github.com''
          \<and> (case pathSegments (pathname parsed) of
                user # repo # word # branch # path \<Rightarrow> word = ''blob''
              | _ \<Rightarrow> False))"

text \<open>A parser that knows the URL of the scenario, as the platform's parser reads it.\<close>

definition scenarioURL :: URLParser where
  "scenarioURL u =
     (if u = ''https://github.com/user/repo/blob/main/README.md''
      then Some \<lparr>hostname = ''github.com'', pathname = ''/user/repo/blob/main/README.md''\<rparr>
      else None)"

subsection \<open>Requests and chains of requests\<close>

text \<open>The \<open>maxChars\<close> a request asks for, with the default.\<close>

definition requestedMaxChars :: "WebFetchOptions \<Rightarrow> int" where
  "requestedMaxChars options =
     (case o_maxChars options of None \<Rightarrow> DEFAULT_MAX_CHARS | Some n \<Rightarrow> n)"

text \<open>The follow-up request of a caller that got \<open>token\<close>: the same options, no URL.\<close>

definition continueWith :: "WebFetchOptions \<Rightarrow> string \<Rightarrow> WebFetchOptions" where
  "continueWith options token =
     options\<lparr>o_url := None, o_headings := None, o_continuationToken := Some token\<rparr>"

text \<open>
  A caller that fetches and then continues with each returned token until the
  token is null, making at most \<open>fuel\<close> calls; \<open>clock\<close> gives the time of each call.
  The result is the list of responses, or nothing when a call fails or the fuel
  runs out.
\<close>

fun fetchChain ::
  "nat \<Rightarrow> 'doc Platform \<Rightarrow> (nat \<Rightarrow> int) \<Rightarrow> WebFetchOptions \<Rightarrow> World \<Rightarrow> WebFetchResult list option" where
  "fetchChain 0 P clock options w = None"
| "fetchChain (Suc fuel) P clock options w =
     (case fetchWebPage P (clock fuel) options w of
        (Inl e, w') \<Rightarrow> None
      | (Inr r, w') \<Rightarrow>
          (case r_continuationToken r of
             None \<Rightarrow> Some [r]
           | Some token \<Rightarrow>
               (case fetchChain fuel P clock (continueWith options token) w' of
                  None \<Rightarrow> None
                | Some rs \<Rightarrow> Some (r # rs))))"

text \<open>The text of a response without the truncation marker that a non-final chunk ends with.\<close>

definition chunkText :: "WebFetchResult \<Rightarrow> string" where
  "chunkText r =
     (if r_continuationToken r = None then r_markdown r
      else take (length (r_markdown r) - length truncationMarker) (r_markdown r))"

text \<open>The chunks of a chain put together, markers removed.\<close>

definition reassemble :: "WebFetchResult list \<Rightarrow> string" where
  "reassemble rs = concat (map chunkText rs)"

text \<open>A clock for a chain that starts with fuel 3: the calls are made at times 8 and 9.\<close>

definition ticks :: "nat \<Rightarrow> int" where
  "ticks fuel = 10 - int fuel"

text \<open>The invariant of a store entry: the offset lies within the text.\<close>

definition entryOk :: "CacheEntry \<Rightarrow> bool" where
  "entryOk e \<longleftrightarrow> 0 \<le> c_offset e \<and> c_offset e \<le> int (length (c_markdown e))"

subsection \<open>A concrete platform and concrete pages\<close>

text \<open>
  Three pages: 300 letters; the same under a level-1 heading; and 199 letters, a
  space and 100 more letters. The platform has no global \<open>fetch\<close>, it accepts the
  delays from 0 to \<open>2^32 - 1\<close>, its documents
  are the HTML texts themselves, Readability finds no article and no selector
  matches, so the basic-clean tier is taken, and there is nothing for \<open>cleanHtml\<close>
  to remove. Turndown leaves plain text as it is and renders the heading in ATX
  style.
\<close>

definition longText :: string where
  "longText = replicate 300 (CHR ''a'')"

definition headedPage :: string where
  "headedPage = ''<h1>T</h1>'' @ longText"

definition headedMarkdown :: string where
  "headedMarkdown = ''# T\<newline>\<newline>'' @ longText"

definition spacedText :: string where
  "spacedText = replicate 199 (CHR ''a'') @ '' '' @ replicate 100 (CHR ''b'')"

definition plainPlatform :: "string Platform" where
  "plainPlatform =
     \<lparr>globalFetch = None,
      newURL = (\<lambda>u. if u = ''https://example.com/long''
                     then Some \<lparr>hostname = ''example.com'', pathname = ''/long''\<rparr> else None),
      abortSignalTimeout = (\<lambda>ms. 0 \<le> ms \<and> ms \<le> 4294967295),
      newJSDOM = (\<lambda>html u. Some html),
      readabilityParse = (\<lambda>doc. None),
      querySelector = (\<lambda>doc selector. None),
      documentTitle = (\<lambda>doc. ''''),
      cleanHtml = (\<lambda>html. html),
      turndown = (\<lambda>html. if html = headedPage then headedMarkdown else html)\<rparr>"

text \<open>A transport that serves one page, as \<open>createFetch\<close> of the test suite does.\<close>

definition serve :: "string \<Rightarrow> FetchLike" where
  "serve html =
     (\<lambda>request. Inr \<lparr>ok = True, status = 200, statusText = ''OK'',
                      contentTypeHeader = Some ''text/html'', body = html\<rparr>)"

definition firstRequest :: "string \<Rightarrow> int \<Rightarrow> WebFetchOptions" where
  "firstRequest html n =
     \<lparr>o_url = Some ''https://example.com/long'', o_maxChars = Some n, o_headings = None,
      o_continuationToken = None, o_timeoutMs = None, o_userAgent = None,
      o_maxBodySizeBytes = None, o_fetchImpl = Some (serve html)\<rparr>"

definition emptyWorld :: World where
  "emptyWorld = \<lparr>contentCache = Map.empty, transportCalls = []\<rparr>"

text \<open>The token that the first fetch of a 300-character page with \<open>maxChars = 200\<close> mints at time 0.\<close>

definition firstToken :: string where
  "firstToken = generateCacheKey 0 ''https://example.com/long'' ''continuation'' 200"

text \<open>The world after that first fetch of \<open>longText\<close>.\<close>

definition afterFirstFetch :: World where
  "afterFirstFetch = snd (fetchWebPage plainPlatform 0 (firstRequest longText 200) emptyWorld)"

text \<open>The invariant of the store: every entry is in order.\<close>

definition storeOk :: "Cache \<Rightarrow> bool" where
  "storeOk cache \<longleftrightarrow> (\<forall>key e. cache key = Some e \<longrightarrow> entryOk e)"

section \<open>Facts about the string primitives\<close>

lemma substring_le:
  assumes "a \<le> b"
  shows "substring s a b =
           take (nat (min (max b 0) (int (length s)) - min (max a 0) (int (length s))))
                (drop (nat (min (max a 0) (int (length s)))) s)"
proof -
  have "min (max a 0) (int (length s)) \<le> min (max b 0) (int (length s))"
    using assms by linarith
  then show ?thesis
    unfolding substring_def Let_def by (simp only: max_absorb2 min_absorb1)
qed

lemma length_substring_budget:
  assumes "a \<le> b" and "b \<le> max (a + m) 0" and "0 \<le> m"
  shows "int (length (substring s a b)) \<le> m"
proof -
  have "min (max b 0) (int (length s)) - min (max a 0) (int (length s)) \<le> m"
    using assms by linarith
  moreover have "length (substring s a b)
      \<le> nat (min (max b 0) (int (length s)) - min (max a 0) (int (length s)))"
    unfolding substring_le [OF assms(1)] by simp
  ultimately show ?thesis using assms(3) by linarith
qed

lemma substring_inside:
  assumes "0 \<le> a" and "a \<le> b" and "b \<le> int (length s)"
  shows "substring s a b = take (nat (b - a)) (drop (nat a) s)"
proof -
  have "min (max a 0) (int (length s)) = a" "min (max b 0) (int (length s)) = b"
    using assms by linarith+
  then show ?thesis
    unfolding substring_le [OF assms(2)] by simp
qed

lemma substringFrom_drop: "substringFrom s a = drop (nat a) s"
proof (cases "a \<le> int (length s)")
  case True
  then have "min (max (int (length s)) 0) (int (length s)) = int (length s)"
    and "min (max a 0) (int (length s)) = max a 0"
    by linarith+
  then have "substringFrom s a = take (nat (int (length s) - max a 0)) (drop (nat (max a 0)) s)"
    unfolding substringFrom_def substring_le [OF True] by simp
  also have "nat (max a 0) = nat a" by simp
  finally show ?thesis by simp
next
  case False
  then have "substringFrom s a = []"
    unfolding substringFrom_def substring_def Let_def by simp
  moreover have "drop (nat a) s = []" using False by simp
  ultimately show ?thesis by simp
qed

lemma lastIndexUpto_bounds:
  "- 1 \<le> lastIndexUpto s c k \<and> lastIndexUpto s c k \<le> int k \<and> lastIndexUpto s c k < int (length s)"
  by (induction k) auto

lemma lastIndexOf_lower: "- 1 \<le> lastIndexOf s c pos"
  unfolding lastIndexOf_def using lastIndexUpto_bounds [of s c] by blast

lemma lastIndexOf_upper: "lastIndexOf s c pos \<le> max pos 0"
  unfolding lastIndexOf_def using lastIndexUpto_bounds [of s c "nat (max pos 0)"] by simp

lemma lastIndexOf_length: "lastIndexOf s c pos < int (length s)"
  unfolding lastIndexOf_def using lastIndexUpto_bounds [of s c] by blast

lemma lastIndexUpto_absent: "c \<notin> set s \<Longrightarrow> lastIndexUpto s c k = - 1"
  by (induction k) auto

lemma lastIndexOf_absent: "c \<notin> set s \<Longrightarrow> lastIndexOf s c pos = - 1"
  unfolding lastIndexOf_def by (rule lastIndexUpto_absent)

lemma length_trim_le: "length (trim s) \<le> length s"
proof -
  have "length (trim s) \<le> length (rev (dropWhile isWhiteSpace s))"
    unfolding trim_def length_rev
    using length_dropWhile_le [of isWhiteSpace "rev (dropWhile isWhiteSpace s)"] by simp
  also have "\<dots> \<le> length s"
    unfolding length_rev by (rule length_dropWhile_le)
  finally show ?thesis .
qed

lemma newline_threshold:
  "(real_of_int l > real_of_int s + real_of_int m * 0.8) = (5 * l > 5 * s + 4 * m)"
  by linarith

section \<open>Facts about \<open>truncateMarkdown\<close>\<close>

text \<open>The three exits of \<open>truncateMarkdown\<close>, one equation each.\<close>

lemma truncate_at_end:
  "int (length md) \<le> offset \<Longrightarrow>
   truncateMarkdown md maxChars offset =
     \<lparr>markdown = '''', hasMore = False, nextOffset = offset, originalLength = None\<rparr>"
  unfolding truncateMarkdown_def Let_def by simp

lemma truncate_fits:
  "offset < int (length md) \<Longrightarrow> int (length md) - offset \<le> maxChars \<Longrightarrow>
   truncateMarkdown md maxChars offset =
     \<lparr>markdown = drop (nat offset) md, hasMore = False,
      nextOffset = int (length md), originalLength = None\<rparr>"
  unfolding truncateMarkdown_def Let_def substringFrom_drop by simp

lemma truncate_cut:
  "offset < int (length md) \<Longrightarrow> \<not> int (length md) - offset \<le> maxChars \<Longrightarrow>
   truncateMarkdown md maxChars offset =
     \<lparr>markdown = trim (substring md offset (cutEnd md maxChars offset)) @ truncationMarker,
      hasMore = True, nextOffset = cutEnd md maxChars offset,
      originalLength = Some (int (length md))\<rparr>"
  unfolding truncateMarkdown_def cutEnd_def Let_def by simp

lemma cutEnd_cases:
  "(cutEnd md m s = s + m \<and> \<not> 5 * lastIndexOf md (CHR ''\<newline>'') (s + m) > 5 * s + 4 * m)
   \<or> (cutEnd md m s = lastIndexOf md (CHR ''\<newline>'') (s + m)
      \<and> 5 * lastIndexOf md (CHR ''\<newline>'') (s + m) > 5 * s + 4 * m)"
  unfolding cutEnd_def Let_def newline_threshold by simp

lemma cutEnd_ge_start: "0 \<le> m \<Longrightarrow> s \<le> cutEnd md m s"
  using cutEnd_cases [of md m s] by linarith

lemma cutEnd_le: "cutEnd md m s \<le> max (s + m) 0"
  using cutEnd_cases [of md m s] lastIndexOf_upper [of md "CHR ''\<newline>''" "s + m"]
  by linarith

lemma cutEnd_less_length:
  "\<not> int (length md) - s \<le> m \<Longrightarrow> cutEnd md m s < int (length md)"
  using cutEnd_cases [of md m s] lastIndexOf_length [of md "CHR ''\<newline>''" "s + m"]
  by linarith

lemma cutEnd_advances: "0 < m \<Longrightarrow> s < cutEnd md m s"
  using cutEnd_cases [of md m s] by linarith

lemma beforeMarker_cut:
  "hasMore r \<Longrightarrow> markdown r = x @ truncationMarker \<Longrightarrow> beforeMarker r = x"
  unfolding beforeMarker_def by simp

section \<open>Claims about the paginator\<close>

text \<open>
  Claim C3, amended. For every text, every \<open>maxChars\<close> that is not negative and
  every start offset, \<open>truncateMarkdown\<close> returns at most \<open>maxChars\<close> characters
  before the truncation marker: the returned slice is the input from \<open>offset\<close> up
  to \<open>nextOffset\<close>, trimmed, so that newline alignment and trimming only shorten
  it. \<open>hasMore\<close> is false exactly when the slice reaches the end of the input, and
  then the slice is the whole rest of the text.
\<close>

theorem truncateMarkdown_within_budget:
  assumes "0 \<le> maxChars"
  shows "int (length (beforeMarker (truncateMarkdown md maxChars offset))) \<le> maxChars
    \<and> markdown (truncateMarkdown md maxChars offset)
        = beforeMarker (truncateMarkdown md maxChars offset)
          @ (if hasMore (truncateMarkdown md maxChars offset) then truncationMarker else [])
    \<and> beforeMarker (truncateMarkdown md maxChars offset)
        = (if hasMore (truncateMarkdown md maxChars offset)
           then trim (substring md offset (nextOffset (truncateMarkdown md maxChars offset)))
           else drop (nat offset) md)
    \<and> (\<not> hasMore (truncateMarkdown md maxChars offset))
        = (int (length md) \<le> nextOffset (truncateMarkdown md maxChars offset))"
proof -
  consider (at_end) "int (length md) \<le> offset"
    | (fits) "offset < int (length md)" "int (length md) - offset \<le> maxChars"
    | (cut) "offset < int (length md)" "\<not> int (length md) - offset \<le> maxChars"
    by linarith
  then show ?thesis
  proof cases
    case at_end
    show ?thesis
      unfolding truncate_at_end [OF at_end] beforeMarker_def using assms at_end by simp
  next
    case fits
    have "int (length md - nat offset) \<le> maxChars" using fits by linarith
    then show ?thesis
      unfolding truncate_fits [OF fits] beforeMarker_def using fits by simp
  next
    case cut
    let ?e = "cutEnd md maxChars offset"
    let ?r = "truncateMarkdown md maxChars offset"
    have r: "?r = \<lparr>markdown = trim (substring md offset ?e) @ truncationMarker,
      hasMore = True, nextOffset = ?e, originalLength = Some (int (length md))\<rparr>"
      by (rule truncate_cut [OF cut])
    have bm: "beforeMarker ?r = trim (substring md offset ?e)"
      by (rule beforeMarker_cut) (simp_all add: r)
    have "int (length (substring md offset ?e)) \<le> maxChars"
      by (rule length_substring_budget [OF cutEnd_ge_start [OF assms] cutEnd_le assms])
    then have len: "int (length (trim (substring md offset ?e))) \<le> maxChars"
      using length_trim_le [of "substring md offset ?e"] by linarith
    have e1: "?e < int (length md)" by (rule cutEnd_less_length [OF cut(2)])
    show ?thesis
      unfolding bm using len e1 by (simp add: r)
  qed
qed

theorem truncateMarkdown_within_budget_witness:
  "(0::int) \<le> 10
   \<and> hasMore (truncateMarkdown ''one two\<newline>three four five'' 10 0)
   \<and> int (length (beforeMarker (truncateMarkdown ''one two\<newline>three four five'' 10 0))) \<le> 10
   \<and> \<not> int (length ''one two\<newline>three four five'')
         \<le> nextOffset (truncateMarkdown ''one two\<newline>three four five'' 10 0)"
proof -
  have z: "(0::int) \<le> 10" by simp
  have h: "hasMore (truncateMarkdown ''one two\<newline>three four five'' 10 0)"
    by code_simp
  show ?thesis
    using truncateMarkdown_within_budget [OF z, of "''one two\<newline>three four five''" 0] h z
    by blast
qed

section \<open>Facts about the section filter\<close>

lemma ex_le_Suc: "(\<exists>i\<le>Suc n. Q i) = (Q 0 \<or> (\<exists>j\<le>n. Q (Suc j)))"
proof
  assume "\<exists>i\<le>Suc n. Q i"
  then obtain i where "i \<le> Suc n" "Q i" by blast
  then show "Q 0 \<or> (\<exists>j\<le>n. Q (Suc j))" by (cases i) auto
next
  assume "Q 0 \<or> (\<exists>j\<le>n. Q (Suc j))"
  then show "\<exists>i\<le>Suc n. Q i" by auto
qed

lemma str_includes_ex:
  "str_includes s t = (\<exists>i\<le>length s. take (length t) (drop i s) = t)"
proof (induction s)
  case Nil
  show ?case by auto
next
  case (Cons c cs)
  show ?case
    unfolding length_Cons ex_le_Suc using Cons.IH by simp
qed

lemma str_includes_iff:
  "str_includes s t = list_ex (\<lambda>i. take (length t) (drop i s) = t) [0..<Suc (length s)]"
  unfolding str_includes_ex list_ex_iff set_upt by (auto simp: less_Suc_eq_le)

lemma includes_containsIgnoringCase:
  "str_includes (toLowerCase s) (toLowerCase t) = containsIgnoringCase s t"
  unfolding str_includes_iff containsIgnoringCase_def toLowerCase_def by simp

lemma findIndex_filter:
  "findIndex p xs =
     (case filter (\<lambda>i. p (xs ! i)) [0..<length xs] of [] \<Rightarrow> - 1 | i # _ \<Rightarrow> int i)"
proof (induction xs)
  case Nil
  show ?case by simp
next
  case (Cons x xs)
  have upt: "[0..<length (x # xs)] = 0 # map Suc [0..<length xs]"
    by (simp only: map_Suc_upt upt_conv_Cons [of 0] length_Cons zero_less_Suc)
  have flt: "filter (\<lambda>i. p ((x # xs) ! i)) (map Suc [0..<length xs])
             = map Suc (filter (\<lambda>i. p (xs ! i)) [0..<length xs])"
    by (simp add: filter_map comp_def)
  show ?case
    unfolding upt using Cons.IH flt
    by (cases "filter (\<lambda>i. p (xs ! i)) [0..<length xs]") (simp_all add: Let_def)
qed

lemma findIndex_range: "findIndex p xs < int (length xs)"
  by (induction xs) (auto simp: Let_def)

lemma targetIndex_resolve:
  "resolveSelector hs tgt =
     (if 0 \<le> targetIndex hs tgt \<and> targetIndex hs tgt < int (length hs)
      then Some (nat (targetIndex hs tgt)) else None)"
proof (cases tgt)
  case (Num n)
  then show ?thesis
    unfolding resolveSelector_def targetIndex_def by auto
next
  case (Str t)
  let ?p = "\<lambda>heading. str_includes (toLowerCase (htext heading)) (toLowerCase t)"
  have eq: "(\<lambda>i. containsIgnoringCase (htext (hs ! i)) t) = (\<lambda>i. ?p (hs ! i))"
    by (simp add: includes_containsIgnoringCase)
  show ?thesis
    unfolding resolveSelector_def targetIndex_def Str target.case Let_def eq
    using findIndex_range [of ?p hs] findIndex_filter [of ?p hs]
    by (cases "filter (\<lambda>i. ?p (hs ! i)) [0..<length hs]") simp_all
qed

lemma sectionEnd_filter:
  "sectionEnd (drop k hs) lv d =
     (case filter (\<lambda>j. level (hs ! j) \<le> lv) [k..<length hs] of
        [] \<Rightarrow> d | j # _ \<Rightarrow> position (hs ! j))"
proof (induction "length hs - k" arbitrary: k)
  case 0
  then show ?case by simp
next
  case (Suc n)
  then have k: "k < length hs" by simp
  have IH: "sectionEnd (drop (Suc k) hs) lv d =
     (case filter (\<lambda>j. level (hs ! j) \<le> lv) [Suc k..<length hs] of
        [] \<Rightarrow> d | j # _ \<Rightarrow> position (hs ! j))"
    using Suc by simp
  show ?case
    unfolding Cons_nth_drop_Suc [OF k, symmetric] upt_conv_Cons [OF k]
    using IH by simp
qed

lemma sectionEnd_cases:
  "sectionEnd xs lv d = d \<or> (\<exists>h \<in> set xs. sectionEnd xs lv d = position h)"
  by (induction xs) auto

lemma substring_nat:
  assumes "a \<le> b \<or> b = length s"
  shows "substring s (int a) (int b) = take (b - a) (drop a s)"
proof (cases "a \<le> b")
  case True
  then have le: "int a \<le> int b" by simp
  show ?thesis
  proof (cases "a \<le> length s")
    case True
    then have a: "min (max (int a) 0) (int (length s)) = int a" by simp
    have b: "min (max (int b) 0) (int (length s)) = int (min b (length s))" by simp
    have "take (min b (length s) - a) (drop a s) = take (b - a) (drop a s)"
      by (cases "b \<le> length s") simp_all
    then show ?thesis
      unfolding substring_le [OF le] a b by (simp add: nat_diff_distrib')
  next
    case False
    then have "min (max (int a) 0) (int (length s)) = int (length s)" by simp
    then show ?thesis
      unfolding substring_le [OF le] using False by simp
  qed
next
  case False
  with assms have b: "b = length s" and a: "length s < a" by simp_all
  have "substring s (int a) (int (length s)) = []"
    unfolding substring_def Let_def using a by simp
  then show ?thesis using a b by simp
qed

lemma filterStep_spec:
  assumes "sorted (map position hs)"
  shows "filterStep html hs acc tgt =
     (case resolveSelector hs tgt of
        None \<Rightarrow> acc
      | Some i \<Rightarrow> (fst acc @ sectionSpan html hs i @ ''\<newline>\<newline>'', True))"
proof (cases "0 \<le> targetIndex hs tgt \<and> targetIndex hs tgt < int (length hs)")
  case False
  then show ?thesis
    unfolding filterStep_def Let_def targetIndex_resolve by auto
next
  case True
  define i where "i = nat (targetIndex hs tgt)"
  have i: "i < length hs" using True unfolding i_def by linarith
  have res: "resolveSelector hs tgt = Some i"
    unfolding targetIndex_resolve i_def using True by simp
  define stop where "stop = sectionEnd (drop (i + 1) hs) (level (hs ! i)) (length html)"
  have "position (hs ! i) \<le> stop \<or> stop = length html"
  proof -
    from sectionEnd_cases [of "drop (i + 1) hs" "level (hs ! i)" "length html"]
    consider "stop = length html" | h where "h \<in> set (drop (i + 1) hs)" "stop = position h"
      unfolding stop_def by blast
    then show ?thesis
    proof cases
      case 1
      then show ?thesis by simp
    next
      case 2
      then obtain k where k: "h = hs ! (i + 1 + k)" "i + 1 + k < length hs"
        by (auto simp: in_set_conv_nth)
      have "map position hs ! i \<le> map position hs ! (i + 1 + k)"
        using assms k(2) by (intro sorted_nth_mono) simp_all
      then show ?thesis using k i 2 by simp
    qed
  qed
  then have sub: "substring html (int (position (hs ! i))) (int stop)
      = take (stop - position (hs ! i)) (drop (position (hs ! i)) html)"
    by (intro substring_nat) blast
  have span: "sectionSpan html hs i = take (stop - position (hs ! i)) (drop (position (hs ! i)) html)"
    unfolding sectionSpan_def stop_def Let_def
    using sectionEnd_filter [of "Suc i" hs "level (hs ! i)" "length html"] by simp
  have fs: "filterStep html hs acc tgt
      = (fst acc @ substring html (int (position (hs ! i))) (int stop) @ ''\<newline>\<newline>'', True)"
    unfolding filterStep_def Let_def stop_def i_def using True by simp
  show ?thesis
    unfolding fs res by (simp add: sub span)
qed

lemma foldl_filterStep:
  assumes "sorted (map position hs)"
  shows "foldl (filterStep html hs) (acc, b) targets =
     (acc @ selectedSections html hs targets,
      b \<or> list_ex (\<lambda>tgt. resolveSelector hs tgt \<noteq> None) targets)"
proof (induction targets arbitrary: acc b)
  case Nil
  show ?case by (simp add: selectedSections_def)
next
  case (Cons tgt targets)
  show ?case
  proof (cases "resolveSelector hs tgt")
    case None
    then show ?thesis
      using Cons.IH [of acc b] by (simp add: filterStep_spec [OF assms] selectedSections_def)
  next
    case (Some i)
    then show ?thesis
      using Cons.IH [of "acc @ sectionSpan html hs i @ ''\<newline>\<newline>''" True]
      by (simp add: filterStep_spec [OF assms] selectedSections_def)
  qed
qed

section \<open>Claims about the section filter\<close>

text \<open>
  Claim C5. For every fragment, every heading list in document order and every
  selector list: a numeric selector \<open>n\<close> resolves to the heading at index
  \<open>n - 1\<close>; a text selector resolves to the first heading whose text contains it
  when case is ignored, or to none; a resolved heading contributes the span from
  its position up to the position of the next heading whose level is at most its
  own, or to the end of the fragment; and the output is the matched spans in
  selector order, each followed by a blank line. \<open>filtered\<close> tells whether some
  selector resolved.
\<close>

theorem filterContentByHeadings_sections:
  assumes "sorted (map position hs)"
  shows "f_html (filterContentByHeadings html hs targets) = selectedSections html hs targets
    \<and> filtered (filterContentByHeadings html hs targets)
        = list_ex (\<lambda>tgt. resolveSelector hs tgt \<noteq> None) targets"
  unfolding filterContentByHeadings_def Let_def foldl_filterStep [OF assms] by simp

theorem filterContentByHeadings_sections_witness:
  "sorted (map position (extractHeadings ''<h1>A</h1>x<h2>B</h2>y<h1>C</h1>z''))
   \<and> f_html (filterContentByHeadings ''<h1>A</h1>x<h2>B</h2>y<h1>C</h1>z''
        (extractHeadings ''<h1>A</h1>x<h2>B</h2>y<h1>C</h1>z'') [Str ''c'', Num 1, Num 2, Str ''q''])
     = ''<h1>C</h1>z\<newline>\<newline><h1>A</h1>x<h2>B</h2>y\<newline>\<newline><h2>B</h2>y\<newline>\<newline>''"
proof -
  have s: "sorted (map position (extractHeadings ''<h1>A</h1>x<h2>B</h2>y<h1>C</h1>z''))"
    by code_simp
  have e: "selectedSections ''<h1>A</h1>x<h2>B</h2>y<h1>C</h1>z''
        (extractHeadings ''<h1>A</h1>x<h2>B</h2>y<h1>C</h1>z'') [Str ''c'', Num 1, Num 2, Str ''q'']
     = ''<h1>C</h1>z\<newline>\<newline><h1>A</h1>x<h2>B</h2>y\<newline>\<newline><h2>B</h2>y\<newline>\<newline>''"
    by code_simp
  show ?thesis
    using filterContentByHeadings_sections [OF s, of "''<h1>A</h1>x<h2>B</h2>y<h1>C</h1>z''"
        "[Str ''c'', Num 1, Num 2, Str ''q'']"] s e
    by simp
qed

section \<open>Facts about the URL normalizer\<close>

lemma split_nonempty: "split d s \<noteq> []"
  by (induction s) (auto split: list.splits)

lemma segmentsFrom_split:
  "segmentsFrom cur p =
     filter (\<lambda>s. s \<noteq> []) (case split (CHR ''/'') p of w # ws \<Rightarrow> (cur @ w) # ws | [] \<Rightarrow> [])"
proof (induction p arbitrary: cur)
  case Nil
  show ?case by simp
next
  case (Cons c cs)
  obtain w ws where sp: "split (CHR ''/'') cs = w # ws"
    using split_nonempty [of "CHR ''/''" cs] by (cases "split (CHR ''/'') cs") auto
  show ?case
    using Cons.IH [of "[]"] Cons.IH [of "cur @ [c]"] sp by simp
qed

lemma pathSegments_split:
  "filter (\<lambda>s. s \<noteq> []) (split (CHR ''/'') p) = pathSegments p"
  unfolding pathSegments_def segmentsFrom_split
  using split_nonempty [of "CHR ''/''" p] by (cases "split (CHR ''/'') p") auto

section \<open>Claims about the URL normalizer\<close>

text \<open>
  Claim C6. For every URL string that parses with host \<open>github.com\<close> and whose
  path has the shape \<open>/{user}/{repo}/blob/{branch}/{path...}\<close>,
  \<open>convertGithubToRaw\<close> returns the \<open>raw.githubusercontent.com\<close> URL of the same
  user, repository, branch and file path, without the \<open>blob\<close> segment. Every
  other string, a malformed URL included, is returned unchanged. The function is
  total: it raises nothing.
\<close>

theorem convertGithubToRaw_blob:
  "(parse url = Some parsed \<and> hostname parsed = ''github.com''
      \<and> pathSegments (pathname parsed) = user # repo # ''blob'' # branch # path
    \<longrightarrow> convertGithubToRaw parse url
          = ''https://raw.githubusercontent.com/'' @ user @ ''/'' @ repo @ ''/'' @ branch
            @ ''/'' @ join ''/'' path)
   \<and> (\<not> isBlobUrl parse url \<longrightarrow> convertGithubToRaw parse url = url)"
proof (intro conjI impI)
  assume a: "parse url = Some parsed \<and> hostname parsed = ''github.com''
      \<and> pathSegments (pathname parsed) = user # repo # ''blob'' # branch # path"
  then show "convertGithubToRaw parse url
          = ''https://raw.githubusercontent.com/'' @ user @ ''/'' @ repo @ ''/'' @ branch
            @ ''/'' @ join ''/'' path"
    unfolding convertGithubToRaw_def pathSegments_split Let_def by simp
next
  assume n: "\<not> isBlobUrl parse url"
  show "convertGithubToRaw parse url = url"
  proof (cases "parse url")
    case None
    then show ?thesis unfolding convertGithubToRaw_def by simp
  next
    case (Some parsed)
    show ?thesis
    proof (cases "hostname parsed = ''github.com''")
      case False
      then show ?thesis unfolding convertGithubToRaw_def using Some by simp
    next
      case True
      have "\<not> (length (pathSegments (pathname parsed)) \<ge> 4
                \<and> pathSegments (pathname parsed) ! 2 = ''blob'')"
        using n Some True unfolding isBlobUrl_def
        by (auto split: list.splits)
      then show ?thesis
        unfolding convertGithubToRaw_def pathSegments_split Let_def using Some True by auto
    qed
  qed
qed

theorem convertGithubToRaw_blob_witness:
  "scenarioURL ''https://github.com/user/repo/blob/main/README.md''
     = Some \<lparr>hostname = ''github.com'', pathname = ''/user/repo/blob/main/README.md''\<rparr>
   \<and> pathSegments ''/user/repo/blob/main/README.md''
     = [''user'', ''repo'', ''blob'', ''main'', ''README.md'']
   \<and> convertGithubToRaw scenarioURL ''https://github.com/user/repo/blob/main/README.md''
     = ''https://raw.githubusercontent.com/user/repo/main/README.md''
   \<and> \<not> isBlobUrl scenarioURL ''not a url''
   \<and> convertGithubToRaw scenarioURL ''not a url'' = ''not a url''"
proof -
  have p: "scenarioURL ''https://github.com/user/repo/blob/main/README.md''
     = Some \<lparr>hostname = ''github.com'', pathname = ''/user/repo/blob/main/README.md''\<rparr>"
    by (simp add: scenarioURL_def)
  have g: "pathSegments ''/user/repo/blob/main/README.md''
     = [''user'', ''repo'', ''blob'', ''main'', ''README.md'']"
    by (simp add: pathSegments_def)
  have n: "\<not> isBlobUrl scenarioURL ''not a url''"
    by (simp add: isBlobUrl_def scenarioURL_def)
  show ?thesis
    using convertGithubToRaw_blob [of scenarioURL "''https://github.com/user/repo/blob/main/README.md''"
        "\<lparr>hostname = ''github.com'', pathname = ''/user/repo/blob/main/README.md''\<rparr>"
        "''user''" "''repo''" "''main''" "[''README.md'']"]
      convertGithubToRaw_blob [of scenarioURL "''not a url''"]
      p g n
    by simp
qed

section \<open>Facts about \<open>fetchWebPage\<close>\<close>

lemma fetchWebPage_continuation:
  assumes "truthy (o_continuationToken options) = Some token"
  shows "fetchWebPage P now options w =
     (case handleContinuation now token (requestedMaxChars options) (contentCache w) of
        Inl e \<Rightarrow> (Inl e, w)
      | Inr found \<Rightarrow> (Inr (fst found), w\<lparr>contentCache := snd found\<rparr>))"
  unfolding fetchWebPage_def requestedMaxChars_def Let_def using assms by simp

lemma fetchWebPage_initial:
  assumes "truthy (o_continuationToken options) = None"
  shows "fetchWebPage P now options w =
     (case fetchAndExtract P options w of
        (Inl e, w1) \<Rightarrow> (Inl e, w1)
      | (Inr fetched, w1) \<Rightarrow>
          (Inr (fst (renderResult P now (requestedMaxChars options) (o_headings options) fetched
                       (contentCache w1))),
           w1\<lparr>contentCache := snd (renderResult P now (requestedMaxChars options)
                                     (o_headings options) fetched (contentCache w1))\<rparr>))"
  unfolding fetchWebPage_def requestedMaxChars_def Let_def using assms by simp

lemma handleContinuation_miss:
  "cache token = None \<Longrightarrow> handleContinuation now token n cache = Inl ContinuationExpired"
  unfolding handleContinuation_def by simp

lemma handleContinuation_hit:
  assumes "cache token = Some cached"
  shows "handleContinuation now token n cache =
     Inr (\<lparr>r_title = c_title cached, r_url = c_url cached,
           r_markdown = markdown (truncateMarkdown (c_markdown cached) n (c_offset cached)),
           r_toc = None,
           r_continuationToken =
             (if hasMore (truncateMarkdown (c_markdown cached) n (c_offset cached))
              then Some (generateCacheKey now (c_url cached) ''continuation''
                          (nextOffset (truncateMarkdown (c_markdown cached) n (c_offset cached))))
              else None),
           r_method = c_method cached\<rparr>,
          if hasMore (truncateMarkdown (c_markdown cached) n (c_offset cached))
          then cache(generateCacheKey now (c_url cached) ''continuation''
                       (nextOffset (truncateMarkdown (c_markdown cached) n (c_offset cached)))
                 \<mapsto> cached\<lparr>c_offset := nextOffset (truncateMarkdown (c_markdown cached) n (c_offset cached)),
                            c_timestamp := now\<rparr>)
          else cache)"
  unfolding handleContinuation_def Let_def using assms by simp

lemma cleanup_expired:
  "cache key = Some v \<Longrightarrow> now - c_timestamp v > CACHE_TTL \<Longrightarrow> cleanup now cache key = None"
  unfolding cleanup_def by simp

lemma cleanup_absent: "cache key = None \<Longrightarrow> cleanup now cache key = None"
  unfolding cleanup_def by simp

section \<open>Claims about continuation requests\<close>

text \<open>
  Claim C7. For every continuation request (the \<open>continuationToken\<close> is present
  and not empty) whose token is not in the store, because it was never minted,
  was swept after its time to live or was cleared, the operation fails with the
  error \<open>ContinuationExpired\<close>, whose message is "Continuation token expired or
  invalid."; nothing is returned and the world is left as it was. So a broken
  token is an error, and the end of the document is a successful response with a
  null token.
\<close>

theorem continuation_miss_is_error:
  assumes "truthy (o_continuationToken options) = Some token"
    and "contentCache w token = None"
  shows "fetchWebPage P now options w = (Inl ContinuationExpired, w)
    \<and> errorMessage ContinuationExpired = Some ''Continuation token expired or invalid.''"
  unfolding fetchWebPage_continuation [OF assms(1)]
  using handleContinuation_miss [of "contentCache w" token now "requestedMaxChars options"] assms(2)
  by simp

text \<open>
  Claim C10. For every request that carries a continuation token (present and
  not empty), \<open>fetchWebPage\<close> is \<open>handleContinuation\<close> on the token and the
  requested \<open>maxChars\<close>: whatever \<open>url\<close>, \<open>timeoutMs\<close>, \<open>userAgent\<close> and
  \<open>maxBodySizeBytes\<close> are given, the result and the new world are the same, and
  no call is made to the transport.
\<close>

theorem url_ignored_with_token:
  assumes "truthy (o_continuationToken options) = Some token"
  shows "fetchWebPage P now
           (options\<lparr>o_url := u, o_timeoutMs := t, o_userAgent := a, o_maxBodySizeBytes := b\<rparr>) w
         = fetchWebPage P now options w
    \<and> fetchWebPage P now options w
        = (case handleContinuation now token (requestedMaxChars options) (contentCache w) of
             Inl e \<Rightarrow> (Inl e, w)
           | Inr found \<Rightarrow> (Inr (fst found), w\<lparr>contentCache := snd found\<rparr>))
    \<and> transportCalls (snd (fetchWebPage P now options w)) = transportCalls w"
proof -
  let ?o = "options\<lparr>o_url := u, o_timeoutMs := t, o_userAgent := a, o_maxBodySizeBytes := b\<rparr>"
  have t: "truthy (o_continuationToken ?o) = Some token" using assms by simp
  have m: "requestedMaxChars ?o = requestedMaxChars options"
    unfolding requestedMaxChars_def by simp
  have 1: "fetchWebPage P now ?o w = fetchWebPage P now options w"
    unfolding fetchWebPage_continuation [OF t] fetchWebPage_continuation [OF assms] m ..
  have 3: "transportCalls (snd (fetchWebPage P now options w)) = transportCalls w"
    unfolding fetchWebPage_continuation [OF assms]
    by (cases "handleContinuation now token (requestedMaxChars options) (contentCache w)") simp_all
  show ?thesis
    using 1 3 fetchWebPage_continuation [OF assms] by blast
qed

section \<open>The concrete pages\<close>

lemma matchHeading_other: "CHR ''<'' \<noteq> c \<Longrightarrow> matchHeading (c # cs) = None"
  by (cases "c # cs" rule: matchOpen.cases) (simp_all add: matchHeading_def)

lemma scanHeadings_no_tag: "CHR ''<'' \<notin> set s \<Longrightarrow> scanHeadings pos skip s = []"
  by (induction s arbitrary: pos skip) (simp_all add: matchHeading_other)

lemma extractHeadings_no_tag: "CHR ''<'' \<notin> set s \<Longrightarrow> extractHeadings s = []"
  unfolding extractHeadings_def by (rule scanHeadings_no_tag)

lemma trim_replicate: "\<not> isWhiteSpace c \<Longrightarrow> trim (replicate n c) = replicate n c"
  unfolding trim_def by (simp add: dropWhile_replicate)

lemma not_white_a: "\<not> isWhiteSpace (CHR ''a'')"
  by (simp add: isWhiteSpace_def)

lemma fetchAndExtract_plain:
  assumes "200 \<le> n" "n \<le> 200000" "length html \<le> 1000"
  shows "fetchAndExtract plainPlatform (firstRequest html n) w =
     (Inr (''https://example.com/long'',
           \<lparr>x_html = html, x_title = ''Untitled'', x_excerpt = None\<rparr>, ''basic-clean''),
      w\<lparr>transportCalls := transportCalls w @
           [\<lparr>q_input = ''https://example.com/long'', q_userAgent = DEFAULT_USER_AGENT,
             q_timeout = DEFAULT_TIMEOUT_MS\<rparr>]\<rparr>)"
  unfolding fetchAndExtract_def firstRequest_def plainPlatform_def serve_def truthy_def
    convertGithubToRaw_def extractContent_def tryReadability_def titleOrUntitled_def
    MAX_CHARS_LIMIT_def DEFAULT_MAX_BODY_SIZE_def Let_def
  using assms by (simp add: DEFAULT_TIMEOUT_MS_def)

lemma cutEnd_no_newline:
  assumes "CHR ''\<newline>'' \<notin> set md" "0 \<le> s" "0 < m"
  shows "cutEnd md m s = s + m"
  using cutEnd_cases [of md m s] lastIndexOf_absent [OF assms(1), of "s + m"] assms(2,3)
  by linarith

lemma truncate_longText:
  "truncateMarkdown longText 200 0 =
     \<lparr>markdown = replicate 200 (CHR ''a'') @ truncationMarker, hasMore = True,
      nextOffset = 200, originalLength = Some 300\<rparr>"
proof -
  have c: "cutEnd longText 200 0 = 200"
    using cutEnd_no_newline [of longText 0 200] by (simp add: longText_def)
  have s: "substring longText 0 200 = replicate 200 (CHR ''a'')"
    using substring_inside [of 0 200 longText] by (simp add: longText_def)
  show ?thesis
    using truncate_cut [of 0 longText 200]
    by (simp add: c s trim_replicate [OF not_white_a]) (simp add: longText_def)
qed

lemma renderResult_plain:
  assumes "CHR ''<'' \<notin> set html" "html \<noteq> headedPage"
  shows "renderResult plainPlatform now n None (u, \<lparr>x_html = html, x_title = t, x_excerpt = None\<rparr>, m) cache
    = (\<lparr>r_title = t, r_url = u, r_markdown = markdown (truncateMarkdown html n 0), r_toc = None,
        r_continuationToken =
          (if hasMore (truncateMarkdown html n 0)
           then Some (generateCacheKey now u ''continuation'' (nextOffset (truncateMarkdown html n 0)))
           else None),
        r_method = m\<rparr>,
       if hasMore (truncateMarkdown html n 0)
       then cache(generateCacheKey now u ''continuation'' (nextOffset (truncateMarkdown html n 0))
              \<mapsto> \<lparr>c_markdown = html, c_offset = nextOffset (truncateMarkdown html n 0),
                   c_url = u, c_title = t, c_method = m, c_timestamp = now\<rparr>)
       else cache)"
  unfolding renderResult_def Let_def
  using assms by (simp add: extractHeadings_no_tag buildTOC_def plainPlatform_def)

lemma first_fetch_longText:
  "fetchWebPage plainPlatform 0 (firstRequest longText 200) emptyWorld =
     (Inr \<lparr>r_title = ''Untitled'', r_url = ''https://example.com/long'',
           r_markdown = replicate 200 (CHR ''a'') @ truncationMarker, r_toc = None,
           r_continuationToken = Some firstToken, r_method = ''basic-clean''\<rparr>,
      \<lparr>contentCache =
         [firstToken \<mapsto> \<lparr>c_markdown = longText, c_offset = 200,
            c_url = ''https://example.com/long'', c_title = ''Untitled'',
            c_method = ''basic-clean'', c_timestamp = 0\<rparr>],
       transportCalls =
         [\<lparr>q_input = ''https://example.com/long'', q_userAgent = DEFAULT_USER_AGENT,
           q_timeout = DEFAULT_TIMEOUT_MS\<rparr>]\<rparr>)"
proof -
  have t: "truthy (o_continuationToken (firstRequest longText 200)) = None"
    by (simp add: firstRequest_def truthy_def)
  have f: "fetchAndExtract plainPlatform (firstRequest longText 200) emptyWorld =
     (Inr (''https://example.com/long'',
           \<lparr>x_html = longText, x_title = ''Untitled'', x_excerpt = None\<rparr>, ''basic-clean''),
      emptyWorld\<lparr>transportCalls := transportCalls emptyWorld @
           [\<lparr>q_input = ''https://example.com/long'', q_userAgent = DEFAULT_USER_AGENT,
             q_timeout = DEFAULT_TIMEOUT_MS\<rparr>]\<rparr>)"
    by (rule fetchAndExtract_plain) (simp_all add: longText_def)
  have p: "CHR ''<'' \<notin> set longText" "longText \<noteq> headedPage"
    by (simp_all add: longText_def headedPage_def)
  have m: "requestedMaxChars (firstRequest longText 200) = 200"
    "o_headings (firstRequest longText 200) = None"
    by (simp_all add: requestedMaxChars_def firstRequest_def)
  show ?thesis
    unfolding fetchWebPage_initial [OF t] f m
    by (simp add: renderResult_plain [OF p] truncate_longText firstToken_def emptyWorld_def)
qed

lemma firstToken_truthy: "truthy (Some firstToken) = Some firstToken"
  by (simp add: truthy_def firstToken_def generateCacheKey_def)

lemma afterFirstFetch_eq:
  "afterFirstFetch =
     \<lparr>contentCache =
         [firstToken \<mapsto> \<lparr>c_markdown = longText, c_offset = 200,
            c_url = ''https://example.com/long'', c_title = ''Untitled'',
            c_method = ''basic-clean'', c_timestamp = 0\<rparr>],
       transportCalls =
         [\<lparr>q_input = ''https://example.com/long'', q_userAgent = DEFAULT_USER_AGENT,
           q_timeout = DEFAULT_TIMEOUT_MS\<rparr>]\<rparr>"
  unfolding afterFirstFetch_def first_fetch_longText by simp

lemma continueWith_token:
  "truthy (o_continuationToken (continueWith options firstToken)) = Some firstToken"
  unfolding continueWith_def using firstToken_truthy by simp

lemma continueWith_maxChars:
  "requestedMaxChars (continueWith (firstRequest html n) token) = n"
  unfolding continueWith_def requestedMaxChars_def firstRequest_def by simp

lemma truncate_longText_rest:
  assumes "100 \<le> n"
  shows "truncateMarkdown longText n 200 =
     \<lparr>markdown = replicate 100 (CHR ''a''), hasMore = False, nextOffset = 300,
      originalLength = None\<rparr>"
  using truncate_fits [of 200 longText n] assms by (simp add: longText_def)

lemma continue_longText:
  assumes "100 \<le> n"
  shows "fetchWebPage plainPlatform t (continueWith (firstRequest longText n) firstToken) afterFirstFetch
    = (Inr \<lparr>r_title = ''Untitled'', r_url = ''https://example.com/long'',
            r_markdown = replicate 100 (CHR ''a''), r_toc = None,
            r_continuationToken = None, r_method = ''basic-clean''\<rparr>,
       afterFirstFetch)"
  unfolding fetchWebPage_continuation [OF continueWith_token] continueWith_maxChars
  by (simp add: afterFirstFetch_eq handleContinuation_hit truncate_longText_rest [OF assms])

section \<open>Claims about validation\<close>

text \<open>
  Claim C2 says that every request whose \<open>maxChars\<close> is outside \<open>[200, 200000]\<close>
  fails with a validation error, with a URL or with a continuation token. The
  operation returns through \<open>handleContinuation\<close> before it reaches the range
  check that the path of the initial fetch makes, so a continuation request is
  not checked: after the first fetch of the 300-letter page, the request with the
  minted token and \<open>maxChars = 120\<close>, which is below 200, returns the last 100
  letters.
\<close>

theorem maxChars_unchecked_on_continuation:
  "requestedMaxChars (continueWith (firstRequest longText 120) firstToken) = 120
   \<and> fst (fetchWebPage plainPlatform 1 (continueWith (firstRequest longText 120) firstToken)
            afterFirstFetch)
     = Inr \<lparr>r_title = ''Untitled'', r_url = ''https://example.com/long'',
            r_markdown = replicate 100 (CHR ''a''), r_toc = None,
            r_continuationToken = None, r_method = ''basic-clean''\<rparr>"
  unfolding continueWith_maxChars by (simp add: continue_longText)

lemma fetchAndExtract_range_error:
  assumes "requestedMaxChars options < 200 \<or> requestedMaxChars options > 200000"
  shows "fetchAndExtract P options w =
     (Inl (if truthy (o_url options) = None then UrlRequired
           else if o_fetchImpl options = None \<and> globalFetch P = None then FetchUnavailable
           else MaxCharsOutOfRange), w)"
proof (cases "truthy (o_url options)")
  case None
  then show ?thesis unfolding fetchAndExtract_def Let_def by simp
next
  case (Some u)
  show ?thesis
  proof (cases "o_fetchImpl options = None \<and> globalFetch P = None")
    case True
    then show ?thesis unfolding fetchAndExtract_def Let_def using Some by simp
  next
    case False
    then obtain f where f: "(case o_fetchImpl options of None \<Rightarrow> globalFetch P | Some f \<Rightarrow> Some f) = Some f"
      by (cases "o_fetchImpl options") auto
    have r: "(case o_maxChars options of None \<Rightarrow> DEFAULT_MAX_CHARS | Some n \<Rightarrow> n) < 200
        \<or> (case o_maxChars options of None \<Rightarrow> DEFAULT_MAX_CHARS | Some n \<Rightarrow> n) > MAX_CHARS_LIMIT"
      using assms unfolding requestedMaxChars_def MAX_CHARS_LIMIT_def .
    show ?thesis
      unfolding fetchAndExtract_def Let_def Some f using r False by simp
  qed
qed

text \<open>
  On the path of the initial fetch the check is made: for every request without a
  continuation token in which \<open>maxChars\<close> is outside \<open>[200, 200000]\<close>, the operation
  fails with a validation error (the URL, the transport and \<open>maxChars\<close> are
  checked in this order) and the world is left as it was: no call to the
  transport, no change of the store.
\<close>

lemma maxChars_checked_on_initial_fetch:
  assumes "truthy (o_continuationToken options) = None"
    and "requestedMaxChars options < 200 \<or> requestedMaxChars options > 200000"
  shows "fetchWebPage P now options w =
     (Inl (if truthy (o_url options) = None then UrlRequired
           else if o_fetchImpl options = None \<and> globalFetch P = None then FetchUnavailable
           else MaxCharsOutOfRange), w)"
  unfolding fetchWebPage_initial [OF assms(1)] fetchAndExtract_range_error [OF assms(2)] by simp

lemma maxChars_checked_on_initial_fetch_instance:
  "truthy (o_continuationToken (firstRequest longText 120)) = None
   \<and> requestedMaxChars (firstRequest longText 120) < 200
   \<and> fetchWebPage plainPlatform 0 (firstRequest longText 120) emptyWorld
       = (Inl MaxCharsOutOfRange, emptyWorld)"
proof -
  have t: "truthy (o_continuationToken (firstRequest longText 120)) = None"
    by (simp add: firstRequest_def truthy_def)
  have m: "requestedMaxChars (firstRequest longText 120) < 200"
    by (simp add: firstRequest_def requestedMaxChars_def)
  then have m': "requestedMaxChars (firstRequest longText 120) < 200
     \<or> requestedMaxChars (firstRequest longText 120) > 200000" by simp
  show ?thesis
    using maxChars_checked_on_initial_fetch [OF t m', of plainPlatform 0 emptyWorld] t m
    by (simp add: firstRequest_def truthy_def)
qed

section \<open>Claims about the life of a token\<close>

text \<open>
  Claim C8 as stated fails: the token minted by the first fetch of the 300-letter
  page is redeemed at time 1 and again at time 2, and both calls return the last
  100 letters.
\<close>

theorem token_redeemed_twice:
  "fst (fetchWebPage plainPlatform 1 (continueWith (firstRequest longText 200) firstToken)
          afterFirstFetch)
     = Inr \<lparr>r_title = ''Untitled'', r_url = ''https://example.com/long'',
            r_markdown = replicate 100 (CHR ''a''), r_toc = None,
            r_continuationToken = None, r_method = ''basic-clean''\<rparr>
   \<and> fst (fetchWebPage plainPlatform 2 (continueWith (firstRequest longText 200) firstToken)
          (snd (fetchWebPage plainPlatform 1 (continueWith (firstRequest longText 200) firstToken)
                  afterFirstFetch)))
     = Inr \<lparr>r_title = ''Untitled'', r_url = ''https://example.com/long'',
            r_markdown = replicate 100 (CHR ''a''), r_toc = None,
            r_continuationToken = None, r_method = ''basic-clean''\<rparr>"
  by (simp add: continue_longText)

lemma truncate_longText_middle:
  "truncateMarkdown longText 50 200 =
     \<lparr>markdown = replicate 50 (CHR ''a'') @ truncationMarker, hasMore = True,
      nextOffset = 250, originalLength = Some 300\<rparr>"
proof -
  have c: "cutEnd longText 50 200 = 250"
    using cutEnd_no_newline [of longText 200 50] by (simp add: longText_def)
  have s: "substring longText 200 250 = replicate 50 (CHR ''a'')"
    using substring_inside [of 200 250 longText] by (simp add: longText_def)
  show ?thesis
    using truncate_cut [of 200 longText 50]
    by (simp add: c s trim_replicate [OF not_white_a]) (simp add: longText_def)
qed

lemma secondToken_differs:
  "generateCacheKey 1 ''https://example.com/long'' ''continuation'' 250 \<noteq> firstToken"
  by code_simp

text \<open>
  Claim C8, amended. Redeeming a token does not consume it: after a successful
  continuation call the entry of the token is still in the store, so a later
  continuation call with the same token succeeds again, and it returns the same
  chunk unless the token just minted is the redeemed token itself. A token is
  minted exactly when content remains; the entry stored under it is the redeemed
  entry with the offset moved to \<open>nextOffset\<close> and the timestamp of the call.
  Every other entry of the store, the redeemed one included, is left as it was,
  and no call is made to the transport.
\<close>

theorem token_stays_redeemable:
  assumes "truthy (o_continuationToken options) = Some token"
    and "fetchWebPage P now options w = (Inr r, w')"
  shows "contentCache w' token \<noteq> None
    \<and> (\<exists>r2 w2. fetchWebPage P later options w' = (Inr r2, w2)
          \<and> (r_continuationToken r \<noteq> Some token \<longrightarrow>
               r_markdown r2 = r_markdown r \<and> r_title r2 = r_title r \<and> r_url r2 = r_url r
               \<and> r_method r2 = r_method r))
    \<and> (\<exists>cached. contentCache w token = Some cached
          \<and> r_continuationToken r
              = (if hasMore (truncateMarkdown (c_markdown cached) (requestedMaxChars options)
                               (c_offset cached))
                 then Some (generateCacheKey now (c_url cached) ''continuation''
                        (nextOffset (truncateMarkdown (c_markdown cached)
                           (requestedMaxChars options) (c_offset cached))))
                 else None)
          \<and> (\<forall>key. r_continuationToken r = Some key \<longrightarrow>
                contentCache w' key
                  = Some (cached\<lparr>c_offset := nextOffset (truncateMarkdown (c_markdown cached)
                                                 (requestedMaxChars options) (c_offset cached)),
                                 c_timestamp := now\<rparr>)))
    \<and> (\<forall>key. r_continuationToken r \<noteq> Some key \<longrightarrow> contentCache w' key = contentCache w key)
    \<and> transportCalls w' = transportCalls w"
proof -
  let ?n = "requestedMaxChars options"
  obtain cached where c: "contentCache w token = Some cached"
    using assms unfolding fetchWebPage_continuation [OF assms(1)]
    by (cases "contentCache w token") (simp_all add: handleContinuation_miss)
  let ?t = "truncateMarkdown (c_markdown cached) ?n (c_offset cached)"
  let ?k = "generateCacheKey now (c_url cached) ''continuation'' (nextOffset ?t)"
  have r: "r = \<lparr>r_title = c_title cached, r_url = c_url cached, r_markdown = markdown ?t,
        r_toc = None, r_continuationToken = (if hasMore ?t then Some ?k else None),
        r_method = c_method cached\<rparr>"
    and w': "w' = w\<lparr>contentCache :=
        (if hasMore ?t then (contentCache w)(?k \<mapsto> cached\<lparr>c_offset := nextOffset ?t, c_timestamp := now\<rparr>)
         else contentCache w)\<rparr>"
    using assms(2)
    unfolding fetchWebPage_continuation [OF assms(1)]
      handleContinuation_hit [where cache = "contentCache w" and token = token, OF c]
    by simp_all
  have 1: "contentCache w' token \<noteq> None"
    unfolding w' using c by simp
  have 3: "\<exists>cached. contentCache w token = Some cached
          \<and> r_continuationToken r
              = (if hasMore (truncateMarkdown (c_markdown cached) ?n (c_offset cached))
                 then Some (generateCacheKey now (c_url cached) ''continuation''
                        (nextOffset (truncateMarkdown (c_markdown cached) ?n (c_offset cached))))
                 else None)
          \<and> (\<forall>key. r_continuationToken r = Some key \<longrightarrow>
                contentCache w' key
                  = Some (cached\<lparr>c_offset := nextOffset (truncateMarkdown (c_markdown cached)
                                                 ?n (c_offset cached)),
                                 c_timestamp := now\<rparr>))"
    by (rule exI [of _ cached]) (simp add: c r w')
  have 4: "\<forall>key. r_continuationToken r \<noteq> Some key \<longrightarrow> contentCache w' key = contentCache w key"
    unfolding r w' by simp
  have 5: "transportCalls w' = transportCalls w"
    unfolding w' by simp
  obtain cached2 where c2: "contentCache w' token = Some cached2"
    using 1 by blast
  have same: "r_continuationToken r \<noteq> Some token \<Longrightarrow> cached2 = cached"
    using c2 c 4 by simp
  have 2: "\<exists>r2 w2. fetchWebPage P later options w' = (Inr r2, w2)
          \<and> (r_continuationToken r \<noteq> Some token \<longrightarrow>
               r_markdown r2 = r_markdown r \<and> r_title r2 = r_title r \<and> r_url r2 = r_url r
               \<and> r_method r2 = r_method r)"
    unfolding fetchWebPage_continuation [OF assms(1)]
      handleContinuation_hit [where cache = "contentCache w'" and token = token, OF c2]
    using same by (simp add: r)
  show ?thesis using 1 2 3 4 5 by blast
qed

theorem token_stays_redeemable_witness:
  "truthy (o_continuationToken (continueWith (firstRequest longText 50) firstToken)) = Some firstToken
   \<and> fst (fetchWebPage plainPlatform 1 (continueWith (firstRequest longText 50) firstToken)
            afterFirstFetch)
     = Inr \<lparr>r_title = ''Untitled'', r_url = ''https://example.com/long'',
            r_markdown = replicate 50 (CHR ''a'') @ truncationMarker, r_toc = None,
            r_continuationToken =
              Some (generateCacheKey 1 ''https://example.com/long'' ''continuation'' 250),
            r_method = ''basic-clean''\<rparr>
   \<and> generateCacheKey 1 ''https://example.com/long'' ''continuation'' 250 \<noteq> firstToken
   \<and> contentCache (snd (fetchWebPage plainPlatform 1
          (continueWith (firstRequest longText 50) firstToken) afterFirstFetch))
        (generateCacheKey 1 ''https://example.com/long'' ''continuation'' 250)
     = Some \<lparr>c_markdown = longText, c_offset = 250, c_url = ''https://example.com/long'',
             c_title = ''Untitled'', c_method = ''basic-clean'', c_timestamp = 1\<rparr>
   \<and> contentCache (snd (fetchWebPage plainPlatform 1
          (continueWith (firstRequest longText 50) firstToken) afterFirstFetch)) firstToken
     = Some \<lparr>c_markdown = longText, c_offset = 200, c_url = ''https://example.com/long'',
             c_title = ''Untitled'', c_method = ''basic-clean'', c_timestamp = 0\<rparr>
   \<and> (\<exists>r2 w2. fetchWebPage plainPlatform 2 (continueWith (firstRequest longText 50) firstToken)
          (snd (fetchWebPage plainPlatform 1
             (continueWith (firstRequest longText 50) firstToken) afterFirstFetch)) = (Inr r2, w2)
         \<and> r_markdown r2 = replicate 50 (CHR ''a'') @ truncationMarker)"
proof -
  let ?o = "continueWith (firstRequest longText 50) firstToken"
  let ?k = "generateCacheKey 1 ''https://example.com/long'' ''continuation'' 250"
  let ?e0 = "\<lparr>c_markdown = longText, c_offset = 200, c_url = ''https://example.com/long'',
             c_title = ''Untitled'', c_method = ''basic-clean'', c_timestamp = 0\<rparr>"
  let ?e1 = "\<lparr>c_markdown = longText, c_offset = 250, c_url = ''https://example.com/long'',
             c_title = ''Untitled'', c_method = ''basic-clean'', c_timestamp = 1\<rparr>"
  let ?r = "\<lparr>r_title = ''Untitled'', r_url = ''https://example.com/long'',
            r_markdown = replicate 50 (CHR ''a'') @ truncationMarker, r_toc = None,
            r_continuationToken = Some ?k, r_method = ''basic-clean''\<rparr>"
  let ?w' = "afterFirstFetch\<lparr>contentCache := (contentCache afterFirstFetch)(?k \<mapsto> ?e1)\<rparr>"
  have t: "truthy (o_continuationToken ?o) = Some firstToken" by (rule continueWith_token)
  have c: "fetchWebPage plainPlatform 1 ?o afterFirstFetch = (Inr ?r, ?w')"
    unfolding fetchWebPage_continuation [OF t] continueWith_maxChars
    by (simp add: afterFirstFetch_eq handleContinuation_hit truncate_longText_middle)
  have e0: "contentCache afterFirstFetch firstToken = Some ?e0"
    by (simp add: afterFirstFetch_eq)
  have m: "requestedMaxChars ?o = 50" by (rule continueWith_maxChars)
  note th = token_stays_redeemable [OF t c, where later = 2]
  have a: "contentCache ?w' ?k = Some ?e1"
    using th e0 by (simp add: m truncate_longText_middle)
  have b: "contentCache ?w' firstToken = Some ?e0"
    using th e0 secondToken_differs by simp
  have d: "\<exists>r2 w2. fetchWebPage plainPlatform 2 ?o ?w' = (Inr r2, w2)
         \<and> r_markdown r2 = replicate 50 (CHR ''a'') @ truncationMarker"
    using th secondToken_differs by auto
  show ?thesis
    unfolding c using t a b d secondToken_differs by simp
qed

section \<open>Instances of the claims about continuation requests\<close>

theorem continuation_miss_is_error_witness:
  "truthy (o_continuationToken (continueWith (firstRequest longText 200) firstToken)) = Some firstToken
   \<and> contentCache (afterFirstFetch\<lparr>contentCache := cleanup 300001 (contentCache afterFirstFetch)\<rparr>)
        firstToken = None
   \<and> fetchWebPage plainPlatform 300002 (continueWith (firstRequest longText 200) firstToken)
        (afterFirstFetch\<lparr>contentCache := cleanup 300001 (contentCache afterFirstFetch)\<rparr>)
     = (Inl ContinuationExpired,
        afterFirstFetch\<lparr>contentCache := cleanup 300001 (contentCache afterFirstFetch)\<rparr>)"
proof -
  have g: "contentCache (afterFirstFetch\<lparr>contentCache := cleanup 300001 (contentCache afterFirstFetch)\<rparr>)
        firstToken = None"
    by (simp add: afterFirstFetch_eq cleanup_def CACHE_TTL_def)
  show ?thesis
    using continuation_miss_is_error [OF continueWith_token g, of plainPlatform 300002
        "firstRequest longText 200"]
      continueWith_token [of "firstRequest longText 200"] g
    by simp
qed

theorem url_ignored_with_token_witness:
  "truthy (o_continuationToken (continueWith (firstRequest longText 200) firstToken)) = Some firstToken
   \<and> fetchWebPage plainPlatform 1
        ((continueWith (firstRequest longText 200) firstToken)
           \<lparr>o_url := Some ''https://example.com/other'', o_timeoutMs := Some 1,
            o_userAgent := Some ''agent'', o_maxBodySizeBytes := Some 1\<rparr>) afterFirstFetch
     = fetchWebPage plainPlatform 1 (continueWith (firstRequest longText 200) firstToken)
         afterFirstFetch
   \<and> transportCalls (snd (fetchWebPage plainPlatform 1
         (continueWith (firstRequest longText 200) firstToken) afterFirstFetch))
     = transportCalls afterFirstFetch"
proof -
  have t: "truthy (o_continuationToken (continueWith (firstRequest longText 200) firstToken))
      = Some firstToken"
    by (rule continueWith_token)
  show ?thesis
    using url_ignored_with_token [OF t, where P = plainPlatform and now = 1
        and u = "Some ''https://example.com/other''" and t = "Some 1" and a = "Some ''agent''"
        and b = "Some 1" and w = afterFirstFetch] t
    by blast
qed

section \<open>Facts about the minting of tokens\<close>

lemma filterStep_no_headings: "filterStep html [] acc tgt = acc"
  unfolding filterStep_def Let_def by auto

lemma filter_no_headings: "filtered (filterContentByHeadings html [] targets) = False"
proof -
  have "foldl (filterStep html []) acc targets = acc" for acc
    by (induction targets arbitrary: acc) (simp_all add: filterStep_no_headings)
  then show ?thesis unfolding filterContentByHeadings_def Let_def by simp
qed

lemma hasMore_from_start:
  assumes "0 \<le> n"
  shows "hasMore (truncateMarkdown md n 0) = (n < int (length md))"
proof -
  consider (at_end) "int (length md) \<le> 0"
    | (fits) "0 < int (length md)" "int (length md) - 0 \<le> n"
    | (cut) "0 < int (length md)" "\<not> int (length md) - 0 \<le> n"
    by linarith
  then show ?thesis
  proof cases
    case at_end
    then show ?thesis unfolding truncate_at_end [OF at_end] using assms by simp
  next
    case fits
    then show ?thesis unfolding truncate_fits [OF fits] by simp
  next
    case cut
    then show ?thesis unfolding truncate_cut [OF cut] by simp
  qed
qed

lemma renderResult_token:
  "r_continuationToken (fst (renderResult P now n selectors (u, ex, m) cache)) =
     (if hasMore (truncateMarkdown (turndown P (x_html ex)) n 0) \<and> extractHeadings (x_html ex) = []
      then Some (generateCacheKey now u ''continuation''
                   (nextOffset (truncateMarkdown (turndown P (x_html ex)) n 0)))
      else None)"
proof (cases "extractHeadings (x_html ex) = []")
  case True
  then show ?thesis
    unfolding renderResult_def Let_def
    by (simp add: filter_no_headings split: option.splits)
next
  case False
  then show ?thesis
    unfolding renderResult_def Let_def by simp
qed

lemma fetchAndExtract_in_range:
  assumes "fetchAndExtract P options w = (Inr fetched, w1)"
  shows "200 \<le> requestedMaxChars options \<and> requestedMaxChars options \<le> 200000"
proof (rule ccontr)
  assume "\<not> (200 \<le> requestedMaxChars options \<and> requestedMaxChars options \<le> 200000)"
  then have "requestedMaxChars options < 200 \<or> requestedMaxChars options > 200000"
    by linarith
  from fetchAndExtract_range_error [OF this, of P w] assms show False by simp
qed

section \<open>Claims about the first response\<close>

text \<open>
  Claim C1, amended. For every initial fetch (no continuation token) that gets
  past validation, transport, the gates and extraction, the operation succeeds and
  the result's \<open>continuationToken\<close> is null if and only if the converted text of
  the extracted fragment fits in \<open>maxChars\<close> or the fragment contains a heading
  (whether or not heading selectors were given). So a token is issued exactly
  when the text exceeds \<open>maxChars\<close> and the fragment has no heading of level 1
  to 3.
\<close>

theorem token_iff_cut_and_no_headings:
  assumes "truthy (o_continuationToken options) = None"
    and "fetchAndExtract P options w = (Inr (u, ex, m), w1)"
  shows "\<exists>r w'. fetchWebPage P now options w = (Inr r, w')
      \<and> (r_continuationToken r = None)
          = (int (length (turndown P (x_html ex))) \<le> requestedMaxChars options
             \<or> extractHeadings (x_html ex) \<noteq> [])"
proof -
  have "0 \<le> requestedMaxChars options"
    using fetchAndExtract_in_range [OF assms(2)] by linarith
  then have h: "hasMore (truncateMarkdown (turndown P (x_html ex)) (requestedMaxChars options) 0)
      = (requestedMaxChars options < int (length (turndown P (x_html ex))))"
    by (rule hasMore_from_start)
  show ?thesis
    unfolding fetchWebPage_initial [OF assms(1)] assms(2)
    by (auto simp: renderResult_token h)
qed

section \<open>The page under a heading\<close>

lemma lastIndexUpto_found:
  "0 \<le> lastIndexUpto s c k \<Longrightarrow> s ! nat (lastIndexUpto s c k) = c"
  by (induction k) (auto split: if_splits simp del: of_nat_Suc)

lemma lastIndexOf_found: "0 \<le> lastIndexOf s c pos \<Longrightarrow> s ! nat (lastIndexOf s c pos) = c"
  unfolding lastIndexOf_def by (rule lastIndexUpto_found)

lemma extractHeadings_headedPage:
  "extractHeadings headedPage = [\<lparr>level = 1, htext = ''T'', position = 0\<rparr>]"
  unfolding extractHeadings_def headedPage_def
  by (simp add: matchHeading_def skipAttributes_def isClosingTag_def isLineTerminator_def
      trim_def isWhiteSpace_def digitValue_def scanHeadings_no_tag longText_def)

lemma truncate_headed:
  "truncateMarkdown headedMarkdown 200 0 =
     \<lparr>markdown = ''# T\<newline>\<newline>'' @ replicate 195 (CHR ''a'') @ truncationMarker, hasMore = True,
      nextOffset = 200, originalLength = Some 305\<rparr>"
proof -
  define pre where "pre = ''# T\<newline>\<newline>''"
  have lp: "length pre = 5" by (simp add: pre_def)
  have md: "headedMarkdown = pre @ longText" by (simp add: headedMarkdown_def pre_def)
  let ?l = "lastIndexOf headedMarkdown (CHR ''\<newline>'') (0 + 200)"
  have len: "length headedMarkdown = 305" by (simp add: md lp longText_def)
  have "\<not> 5 * ?l > 5 * 0 + 4 * 200"
  proof
    assume a: "5 * ?l > 5 * 0 + 4 * 200"
    then have p: "0 \<le> ?l" and ge: "5 \<le> nat ?l" by linarith+
    have u: "nat ?l - 5 < 300"
      using lastIndexOf_length [of headedMarkdown "CHR ''\<newline>''" "0 + 200"] len by linarith
    have "headedMarkdown ! j = longText ! (j - 5)" if "5 \<le> j" for j
      unfolding md nth_append lp using that by simp
    from this [OF ge] have "headedMarkdown ! nat ?l = longText ! (nat ?l - 5)" .
    also have "\<dots> = CHR ''a''"
      unfolding longText_def using u by simp
    finally have "headedMarkdown ! nat ?l = CHR ''a''" .
    with lastIndexOf_found [OF p] show False by simp
  qed
  then have c: "cutEnd headedMarkdown 200 0 = 200"
    using cutEnd_cases [of headedMarkdown 200 0] by linarith
  have "substring headedMarkdown 0 200 = take 200 headedMarkdown"
    using substring_inside [of 0 200 headedMarkdown] len by simp
  also have "\<dots> = pre @ replicate 195 (CHR ''a'')"
    unfolding md by (simp add: lp longText_def)
  finally have s: "substring headedMarkdown 0 200 = pre @ replicate 195 (CHR ''a'')" .
  have t: "trim (pre @ replicate 195 (CHR ''a'')) = pre @ replicate 195 (CHR ''a'')"
    unfolding trim_def pre_def
    by (simp add: isWhiteSpace_def dropWhile_append dropWhile_replicate)
  have "truncateMarkdown headedMarkdown 200 0 =
     \<lparr>markdown = (pre @ replicate 195 (CHR ''a'')) @ truncationMarker, hasMore = True,
      nextOffset = 200, originalLength = Some 305\<rparr>"
    using truncate_cut [of 0 headedMarkdown 200] by (simp add: c s t len)
  then show ?thesis by (simp add: pre_def)
qed

text \<open>
  Claim C1 as stated fails on an unfiltered fetch of a page with a heading: the
  request gives no heading selectors, the converted text has 305 characters and
  \<open>maxChars\<close> is 200, the response ends with the truncation marker, and the
  \<open>continuationToken\<close> is null; nothing is stored.
\<close>

theorem headed_page_gets_no_token:
  "o_headings (firstRequest headedPage 200) = None
   \<and> int (length (turndown plainPlatform headedPage)) = 305
   \<and> fetchWebPage plainPlatform 0 (firstRequest headedPage 200) emptyWorld =
     (Inr \<lparr>r_title = ''Untitled'', r_url = ''https://example.com/long'',
           r_markdown = ''# T\<newline>\<newline>'' @ replicate 195 (CHR ''a'') @ truncationMarker,
           r_toc = Some ''- T'', r_continuationToken = None, r_method = ''basic-clean''\<rparr>,
      \<lparr>contentCache = Map.empty,
       transportCalls =
         [\<lparr>q_input = ''https://example.com/long'', q_userAgent = DEFAULT_USER_AGENT,
           q_timeout = DEFAULT_TIMEOUT_MS\<rparr>]\<rparr>)"
proof -
  have t: "truthy (o_continuationToken (firstRequest headedPage 200)) = None"
    by (simp add: firstRequest_def truthy_def)
  have f: "fetchAndExtract plainPlatform (firstRequest headedPage 200) emptyWorld =
     (Inr (''https://example.com/long'',
           \<lparr>x_html = headedPage, x_title = ''Untitled'', x_excerpt = None\<rparr>, ''basic-clean''),
      emptyWorld\<lparr>transportCalls := transportCalls emptyWorld @
           [\<lparr>q_input = ''https://example.com/long'', q_userAgent = DEFAULT_USER_AGENT,
             q_timeout = DEFAULT_TIMEOUT_MS\<rparr>]\<rparr>)"
    by (rule fetchAndExtract_plain) (simp_all add: longText_def headedPage_def)
  have m: "requestedMaxChars (firstRequest headedPage 200) = 200"
    "o_headings (firstRequest headedPage 200) = None"
    by (simp_all add: requestedMaxChars_def firstRequest_def)
  have td: "turndown plainPlatform headedPage = headedMarkdown"
    by (simp add: plainPlatform_def)
  have len: "length headedMarkdown = 305"
    by (simp add: headedMarkdown_def longText_def)
  have r: "renderResult plainPlatform 0 200 None
        (''https://example.com/long'',
         \<lparr>x_html = headedPage, x_title = ''Untitled'', x_excerpt = None\<rparr>, ''basic-clean'') Map.empty
      = (\<lparr>r_title = ''Untitled'', r_url = ''https://example.com/long'',
           r_markdown = ''# T\<newline>\<newline>'' @ replicate 195 (CHR ''a'') @ truncationMarker,
           r_toc = Some ''- T'', r_continuationToken = None, r_method = ''basic-clean''\<rparr>, Map.empty)"
    unfolding renderResult_def Let_def
    by (simp add: extractHeadings_headedPage td truncate_headed buildTOC_def)
  show ?thesis
    unfolding fetchWebPage_initial [OF t] f m
    by (simp add: r emptyWorld_def td len)
qed

theorem token_iff_cut_and_no_headings_witness:
  "truthy (o_continuationToken (firstRequest longText 200)) = None
   \<and> fst (fetchAndExtract plainPlatform (firstRequest longText 200) emptyWorld)
       = Inr (''https://example.com/long'',
              \<lparr>x_html = longText, x_title = ''Untitled'', x_excerpt = None\<rparr>, ''basic-clean'')
   \<and> extractHeadings longText = []
   \<and> (\<exists>r w'. fetchWebPage plainPlatform 0 (firstRequest longText 200) emptyWorld = (Inr r, w')
         \<and> r_continuationToken r \<noteq> None)"
proof -
  have t: "truthy (o_continuationToken (firstRequest longText 200)) = None"
    by (simp add: firstRequest_def truthy_def)
  have f: "fetchAndExtract plainPlatform (firstRequest longText 200) emptyWorld =
     (Inr (''https://example.com/long'',
           \<lparr>x_html = longText, x_title = ''Untitled'', x_excerpt = None\<rparr>, ''basic-clean''),
      emptyWorld\<lparr>transportCalls := transportCalls emptyWorld @
           [\<lparr>q_input = ''https://example.com/long'', q_userAgent = DEFAULT_USER_AGENT,
             q_timeout = DEFAULT_TIMEOUT_MS\<rparr>]\<rparr>)"
    by (rule fetchAndExtract_plain) (simp_all add: longText_def)
  have h: "extractHeadings longText = []"
    by (rule extractHeadings_no_tag) (simp add: longText_def)
  have l: "\<not> int (length (turndown plainPlatform longText))
             \<le> requestedMaxChars (firstRequest longText 200)"
    by (simp add: plainPlatform_def longText_def headedPage_def requestedMaxChars_def
        firstRequest_def)
  show ?thesis
    using token_iff_cut_and_no_headings [OF t f, of 0] t f h l by auto
qed

section \<open>Facts about the offsets in the store\<close>

lemma hasMore_cut:
  assumes "hasMore (truncateMarkdown md n off)"
  shows "off < int (length md) \<and> \<not> int (length md) - off \<le> n
    \<and> truncateMarkdown md n off =
        \<lparr>markdown = trim (substring md off (cutEnd md n off)) @ truncationMarker,
         hasMore = True, nextOffset = cutEnd md n off,
         originalLength = Some (int (length md))\<rparr>"
proof -
  consider (at_end) "int (length md) \<le> off"
    | (fits) "off < int (length md)" "int (length md) - off \<le> n"
    | (cut) "off < int (length md)" "\<not> int (length md) - off \<le> n"
    by linarith
  then show ?thesis
  proof cases
    case at_end
    then show ?thesis using assms unfolding truncate_at_end [OF at_end] by simp
  next
    case fits
    then show ?thesis using assms unfolding truncate_fits [OF fits] by simp
  next
    case cut
    then show ?thesis using truncate_cut [OF cut] by simp
  qed
qed

lemma nextOffset_in_range:
  assumes "hasMore (truncateMarkdown md n off)" and "0 \<le> n" and "0 \<le> off"
  shows "0 \<le> nextOffset (truncateMarkdown md n off)
    \<and> nextOffset (truncateMarkdown md n off) \<le> int (length md)"
proof -
  from hasMore_cut [OF assms(1)]
  have c: "\<not> int (length md) - off \<le> n"
    and e: "nextOffset (truncateMarkdown md n off) = cutEnd md n off"
    by simp_all
  show ?thesis
    unfolding e
    using cutEnd_ge_start [OF assms(2), of off md] cutEnd_less_length [OF c] assms(3)
    by linarith
qed

lemma handleContinuation_keeps_storeOk:
  assumes "0 \<le> n" and "storeOk cache"
    and "handleContinuation now token n cache = Inr (r, cache')"
  shows "storeOk cache'"
proof (cases "cache token")
  case None
  then show ?thesis using assms(3) by (simp add: handleContinuation_miss)
next
  case (Some cached)
  let ?t = "truncateMarkdown (c_markdown cached) n (c_offset cached)"
  have ok: "entryOk cached" using assms(2) Some unfolding storeOk_def by blast
  show ?thesis
  proof (cases "hasMore ?t")
    case False
    then have "cache' = cache"
      using assms(3)
      unfolding handleContinuation_hit [where cache = cache and token = token, OF Some]
      by simp
    then show ?thesis using assms(2) by simp
  next
    case True
    have new: "entryOk (cached\<lparr>c_offset := nextOffset ?t, c_timestamp := now\<rparr>)"
      using nextOffset_in_range [OF True assms(1)] ok unfolding entryOk_def by simp
    have "cache' = cache(generateCacheKey now (c_url cached) ''continuation'' (nextOffset ?t)
                      \<mapsto> cached\<lparr>c_offset := nextOffset ?t, c_timestamp := now\<rparr>)"
      using assms(3) True
      unfolding handleContinuation_hit [where cache = cache and token = token, OF Some]
      by simp
    then show ?thesis using assms(2) new unfolding storeOk_def by simp
  qed
qed

lemma renderResult_keeps_storeOk:
  assumes "0 \<le> n" and "storeOk cache"
  shows "storeOk (snd (renderResult P now n selectors (u, ex, m) cache))"
proof (cases "hasMore (truncateMarkdown (turndown P (x_html ex)) n 0) \<and> extractHeadings (x_html ex) = []")
  case True
  let ?t = "truncateMarkdown (turndown P (x_html ex)) n 0"
  have new: "entryOk \<lparr>c_markdown = turndown P (x_html ex), c_offset = nextOffset ?t, c_url = u,
          c_title = x_title ex, c_method = m, c_timestamp = now\<rparr>"
    using nextOffset_in_range [of "turndown P (x_html ex)" n 0] True assms(1)
    unfolding entryOk_def by simp
  have "snd (renderResult P now n selectors (u, ex, m) cache)
      = cache(generateCacheKey now u ''continuation'' (nextOffset ?t)
          \<mapsto> \<lparr>c_markdown = turndown P (x_html ex), c_offset = nextOffset ?t, c_url = u,
                c_title = x_title ex, c_method = m, c_timestamp = now\<rparr>)"
    unfolding renderResult_def Let_def using True
    by (simp add: filter_no_headings split: option.splits)
  then show ?thesis using assms(2) new unfolding storeOk_def by simp
next
  case False
  have "snd (renderResult P now n selectors (u, ex, m) cache) = cache"
  proof (cases "extractHeadings (x_html ex) = []")
    case True
    with False show ?thesis
      unfolding renderResult_def Let_def
      by (simp add: filter_no_headings split: option.splits)
  next
    case False
    then show ?thesis unfolding renderResult_def Let_def by simp
  qed
  then show ?thesis using assms(2) by simp
qed

lemma fetchAndExtract_keeps_cache:
  "contentCache (snd (fetchAndExtract P options w)) = contentCache w"
  unfolding fetchAndExtract_def Let_def
  by (simp split: option.splits sum.splits)

lemma cleanup_keeps_storeOk: "storeOk cache \<Longrightarrow> storeOk (cleanup now cache)"
  unfolding storeOk_def cleanup_def by (auto split: option.splits if_splits)

lemma clear_keeps_storeOk: "storeOk (clearWebFetchCache cache)"
  unfolding storeOk_def clearWebFetchCache_def by simp

lemma fetchWebPage_keeps_storeOk:
  assumes "storeOk (contentCache w)"
    and "0 \<le> requestedMaxChars options"
  shows "storeOk (contentCache (snd (fetchWebPage P now options w)))"
proof (cases "truthy (o_continuationToken options)")
  case (Some token)
  show ?thesis
  proof (cases "handleContinuation now token (requestedMaxChars options) (contentCache w)")
    case (Inl e)
    then show ?thesis unfolding fetchWebPage_continuation [OF Some] using assms(1) by simp
  next
    case (Inr found)
    then have "handleContinuation now token (requestedMaxChars options) (contentCache w)
        = Inr (fst found, snd found)" by simp
    from handleContinuation_keeps_storeOk [OF assms(2) assms(1) this]
    show ?thesis unfolding fetchWebPage_continuation [OF Some] Inr by simp
  qed
next
  case None
  obtain res w1 where f: "fetchAndExtract P options w = (res, w1)"
    by (cases "fetchAndExtract P options w")
  have c: "contentCache w1 = contentCache w"
    using fetchAndExtract_keeps_cache [of P options w] f by simp
  show ?thesis
  proof (cases res)
    case (Inl e)
    then show ?thesis unfolding fetchWebPage_initial [OF None] f using assms(1) c by simp
  next
    case (Inr fetched)
    obtain u ex m where fe: "fetched = (u, ex, m)" by (cases fetched) auto
    have "storeOk (snd (renderResult P now (requestedMaxChars options) (o_headings options)
        (u, ex, m) (contentCache w1)))"
      using assms c by (intro renderResult_keeps_storeOk) simp_all
    then show ?thesis unfolding fetchWebPage_initial [OF None] f Inr fe by simp
  qed
qed

section \<open>Claims about the offsets in the store\<close>

lemma truncate_longText_negative:
  "truncateMarkdown longText (- 1000) 200 =
     \<lparr>markdown = replicate 200 (CHR ''a'') @ truncationMarker, hasMore = True,
      nextOffset = - 1, originalLength = Some 300\<rparr>"
proof -
  have l: "lastIndexOf longText (CHR ''\<newline>'') (200 + - 1000) = - 1"
    by (rule lastIndexOf_absent) (simp add: longText_def)
  have c: "cutEnd longText (- 1000) 200 = - 1"
    using cutEnd_cases [of longText "- 1000" 200] l by linarith
  have s: "substring longText 200 (- 1) = replicate 200 (CHR ''a'')"
    unfolding substring_def Let_def by (simp add: longText_def)
  show ?thesis
    using truncate_cut [of 200 longText "- 1000"]
    by (simp add: c s trim_replicate [OF not_white_a]) (simp add: longText_def)
qed

text \<open>
  Claim C3 as stated fails at a negative \<open>maxChars\<close>: on the 300-letter page from
  offset 200 with \<open>maxChars = -1000\<close>, \<open>truncateMarkdown\<close> returns 200 letters
  before the marker (the letters that precede the offset), which is more than
  \<open>maxChars\<close>.
\<close>

theorem negative_budget_exceeded:
  "beforeMarker (truncateMarkdown longText (- 1000) 200) = replicate 200 (CHR ''a'')
   \<and> \<not> int (length (beforeMarker (truncateMarkdown longText (- 1000) 200))) \<le> - 1000"
  by (simp add: truncate_longText_negative beforeMarker_def)

text \<open>
  Claim C9 says that every entry placed in the store has
  \<open>0 \<le> offset \<le> length fullMarkdown\<close>. The lemmas above prove it for the initial
  fetch, for the sweep, for clearing, and for every continuation call whose
  \<open>maxChars\<close> is not negative. A continuation call misses the range check of
  \<open>maxChars\<close>, and with a negative \<open>maxChars\<close> it breaks the invariant: after the first fetch of the
  300-letter page (stored offset 200), the continuation request with
  \<open>maxChars = -1000\<close> succeeds and stores an entry whose offset is \<open>-1\<close>.
\<close>

theorem negative_maxChars_stores_negative_offset:
  "map_option entryOk (contentCache afterFirstFetch firstToken) = Some True
   \<and> fst (fetchWebPage plainPlatform 1 (continueWith (firstRequest longText (- 1000)) firstToken)
            afterFirstFetch)
     = Inr \<lparr>r_title = ''Untitled'', r_url = ''https://example.com/long'',
            r_markdown = replicate 200 (CHR ''a'') @ truncationMarker, r_toc = None,
            r_continuationToken =
              Some (generateCacheKey 1 ''https://example.com/long'' ''continuation'' (- 1)),
            r_method = ''basic-clean''\<rparr>
   \<and> contentCache (snd (fetchWebPage plainPlatform 1
          (continueWith (firstRequest longText (- 1000)) firstToken) afterFirstFetch))
        (generateCacheKey 1 ''https://example.com/long'' ''continuation'' (- 1))
     = Some \<lparr>c_markdown = longText, c_offset = - 1, c_url = ''https://example.com/long'',
             c_title = ''Untitled'', c_method = ''basic-clean'', c_timestamp = 1\<rparr>
   \<and> map_option entryOk (contentCache (snd (fetchWebPage plainPlatform 1
          (continueWith (firstRequest longText (- 1000)) firstToken) afterFirstFetch))
        (generateCacheKey 1 ''https://example.com/long'' ''continuation'' (- 1)))
     = Some False"
proof -
  let ?k = "generateCacheKey 1 ''https://example.com/long'' ''continuation'' (- 1)"
  have 0: "map_option entryOk (contentCache afterFirstFetch firstToken) = Some True"
    unfolding afterFirstFetch_eq entryOk_def by (simp add: longText_def)
  have f: "fetchWebPage plainPlatform 1 (continueWith (firstRequest longText (- 1000)) firstToken)
            afterFirstFetch
     = (Inr \<lparr>r_title = ''Untitled'', r_url = ''https://example.com/long'',
            r_markdown = replicate 200 (CHR ''a'') @ truncationMarker, r_toc = None,
            r_continuationToken = Some ?k, r_method = ''basic-clean''\<rparr>,
        afterFirstFetch\<lparr>contentCache := (contentCache afterFirstFetch)(?k \<mapsto>
           \<lparr>c_markdown = longText, c_offset = - 1, c_url = ''https://example.com/long'',
             c_title = ''Untitled'', c_method = ''basic-clean'', c_timestamp = 1\<rparr>)\<rparr>)"
    unfolding fetchWebPage_continuation [OF continueWith_token] continueWith_maxChars
    by (simp add: afterFirstFetch_eq handleContinuation_hit truncate_longText_negative)
  show ?thesis
    unfolding f using 0 by (simp add: entryOk_def)
qed

section \<open>Facts about chains of requests\<close>

lemma key_truthy:
  "truthy (Some (generateCacheKey now u t v)) = Some (generateCacheKey now u t v)"
  unfolding truthy_def generateCacheKey_def by (cases u) simp_all

lemma continueWith_truthy:
  "truthy (o_continuationToken (continueWith options (generateCacheKey now u t v)))
     = Some (generateCacheKey now u t v)"
  unfolding continueWith_def using key_truthy by simp

lemma continueWith_requested:
  "requestedMaxChars (continueWith options token) = requestedMaxChars options"
  unfolding continueWith_def requestedMaxChars_def by simp

lemma not_hasMore_rest:
  assumes "\<not> hasMore (truncateMarkdown md n off)"
  shows "markdown (truncateMarkdown md n off) = drop (nat off) md"
proof -
  consider (at_end) "int (length md) \<le> off"
    | (fits) "off < int (length md)" "int (length md) - off \<le> n"
    | (cut) "off < int (length md)" "\<not> int (length md) - off \<le> n"
    by linarith
  then show ?thesis
  proof cases
    case at_end
    then show ?thesis unfolding truncate_at_end [OF at_end] by simp
  next
    case fits
    then show ?thesis unfolding truncate_fits [OF fits] by simp
  next
    case cut
    then show ?thesis using assms unfolding truncate_cut [OF cut] by simp
  qed
qed

lemma slice_then_rest:
  assumes "0 \<le> a" and "a \<le> b" and "b \<le> int (length s)"
  shows "substring s a b @ drop (nat b) s = drop (nat a) s"
proof -
  have nb: "nat (b - a) + nat a = nat b" using assms by linarith
  have d: "drop (nat b) s = drop (nat (b - a)) (drop (nat a) s)"
    unfolding drop_drop nb ..
  show ?thesis
    unfolding substring_inside [OF assms] d by (rule append_take_drop_id)
qed

lemma filter_dropWhile_white:
  "filter (\<lambda>c. \<not> isWhiteSpace c) (dropWhile isWhiteSpace s) = filter (\<lambda>c. \<not> isWhiteSpace c) s"
  by (induction s) simp_all

lemma filter_trim:
  "filter (\<lambda>c. \<not> isWhiteSpace c) (trim s) = filter (\<lambda>c. \<not> isWhiteSpace c) s"
  unfolding trim_def rev_filter [symmetric] filter_dropWhile_white
  by (simp add: rev_filter filter_dropWhile_white)

lemma filter_trimmed_slices:
  assumes "slices \<noteq> []"
  shows "filter (\<lambda>c. \<not> isWhiteSpace c) (concat (map trim (butlast slices) @ [last slices]))
       = filter (\<lambda>c. \<not> isWhiteSpace c) (concat slices)"
  using assms
proof (induction slices)
  case Nil
  then show ?case by simp
next
  case (Cons s slices)
  then show ?case by (cases "slices = []") (simp_all add: filter_trim)
qed

lemma renderResult_no_headings:
  assumes "extractHeadings (x_html ex) = []"
  shows "renderResult P now n selectors (u, ex, m) cache =
     (\<lparr>r_title = x_title ex, r_url = u,
       r_markdown = markdown (truncateMarkdown (turndown P (x_html ex)) n 0), r_toc = None,
       r_continuationToken =
         (if hasMore (truncateMarkdown (turndown P (x_html ex)) n 0)
          then Some (generateCacheKey now u ''continuation''
                      (nextOffset (truncateMarkdown (turndown P (x_html ex)) n 0)))
          else None),
       r_method = m\<rparr>,
      if hasMore (truncateMarkdown (turndown P (x_html ex)) n 0)
      then cache(generateCacheKey now u ''continuation''
                   (nextOffset (truncateMarkdown (turndown P (x_html ex)) n 0))
             \<mapsto> \<lparr>c_markdown = turndown P (x_html ex),
                  c_offset = nextOffset (truncateMarkdown (turndown P (x_html ex)) n 0),
                  c_url = u, c_title = x_title ex, c_method = m, c_timestamp = now\<rparr>)
      else cache)"
  unfolding renderResult_def Let_def using assms
  by (simp add: filter_no_headings buildTOC_def split: option.splits)

lemma chunkText_final: "r_continuationToken r = None \<Longrightarrow> chunkText r = r_markdown r"
  unfolding chunkText_def by simp

lemma chunkText_cut:
  "r_continuationToken r = Some k \<Longrightarrow> r_markdown r = x @ truncationMarker \<Longrightarrow> chunkText r = x"
  unfolding chunkText_def by simp

lemma chain_from_entry:
  assumes "0 < requestedMaxChars options"
    and "truthy (o_continuationToken options) = Some token"
    and "contentCache w token = Some cached"
    and "0 \<le> c_offset cached"
    and "c_offset cached \<le> int (length (c_markdown cached))"
    and "int (length (c_markdown cached)) - c_offset cached < int fuel"
  shows "\<exists>rs slices. fetchChain fuel P clock options w = Some rs
      \<and> concat slices = drop (nat (c_offset cached)) (c_markdown cached)
      \<and> slices \<noteq> []
      \<and> map chunkText rs = map trim (butlast slices) @ [last slices]"
  using assms
proof (induction fuel arbitrary: options token w cached)
  case 0
  then show ?case by simp
next
  case (Suc fuel)
  let ?n = "requestedMaxChars options"
  let ?md = "c_markdown cached"
  let ?off = "c_offset cached"
  let ?t = "truncateMarkdown ?md ?n ?off"
  let ?k = "generateCacheKey (clock fuel) (c_url cached) ''continuation'' (nextOffset ?t)"
  let ?r = "\<lparr>r_title = c_title cached, r_url = c_url cached, r_markdown = markdown ?t,
             r_toc = None,
             r_continuationToken = (if hasMore ?t then Some ?k else None),
             r_method = c_method cached\<rparr>"
  let ?c' = "cached\<lparr>c_offset := nextOffset ?t, c_timestamp := clock fuel\<rparr>"
  let ?w' = "w\<lparr>contentCache := (if hasMore ?t then (contentCache w)(?k \<mapsto> ?c') else contentCache w)\<rparr>"
  have call: "fetchWebPage P (clock fuel) options w = (Inr ?r, ?w')"
    unfolding fetchWebPage_continuation [OF Suc.prems(2)]
      handleContinuation_hit [where cache = "contentCache w" and token = token, OF Suc.prems(3)]
    by simp
  show ?case
  proof (cases "hasMore ?t")
    case False
    have "fetchChain (Suc fuel) P clock options w = Some [?r]"
      using call False by simp
    moreover have "chunkText ?r = drop (nat ?off) ?md"
      using False not_hasMore_rest [OF False] by (simp add: chunkText_def)
    ultimately show ?thesis
      by (intro exI [of _ "[?r]"] exI [of _ "[drop (nat ?off) ?md]"]) simp
  next
    case True
    let ?e = "cutEnd ?md ?n ?off"
    from hasMore_cut [OF True]
    have lt: "?off < int (length ?md)" and nf: "\<not> int (length ?md) - ?off \<le> ?n"
      and t: "?t = \<lparr>markdown = trim (substring ?md ?off ?e) @ truncationMarker,
         hasMore = True, nextOffset = ?e, originalLength = Some (int (length ?md))\<rparr>"
      by simp_all
    have e: "nextOffset ?t = ?e" by (simp add: t)
    have adv: "?off < ?e" by (rule cutEnd_advances [OF Suc.prems(1)])
    have below: "?e < int (length ?md)" by (rule cutEnd_less_length [OF nf])
    let ?o' = "continueWith options ?k"
    have p1: "0 < requestedMaxChars ?o'"
      using Suc.prems(1) by (simp add: continueWith_requested)
    have p2: "truthy (o_continuationToken ?o') = Some ?k" by (rule continueWith_truthy)
    have p3: "contentCache ?w' ?k = Some ?c'" using True by simp
    have p4: "0 \<le> c_offset ?c'" using adv Suc.prems(4) e by simp
    have p5: "c_offset ?c' \<le> int (length (c_markdown ?c'))" using below e by simp
    have p6: "int (length (c_markdown ?c')) - c_offset ?c' < int fuel"
      using Suc.prems(6) adv e by simp
    from Suc.IH [OF p1 p2 p3 p4 p5 p6]
    obtain rs slices where
      rs: "fetchChain fuel P clock ?o' ?w' = Some rs"
      and cc: "concat slices = drop (nat (c_offset ?c')) (c_markdown ?c')"
      and ne: "slices \<noteq> []"
      and mp: "map chunkText rs = map trim (butlast slices) @ [last slices]"
      by blast
    have chain: "fetchChain (Suc fuel) P clock options w = Some (?r # rs)"
      using call True rs by simp
    have ck: "chunkText ?r = trim (substring ?md ?off ?e)"
      by (rule chunkText_cut [where k = ?k]) (simp_all add: True t)
    have "substring ?md ?off ?e @ drop (nat ?e) ?md = drop (nat ?off) ?md"
      using slice_then_rest [of ?off ?e ?md] Suc.prems(4) adv below by simp
    then have cc': "concat (substring ?md ?off ?e # slices) = drop (nat ?off) ?md"
      using cc e by simp
    have mp': "map chunkText (?r # rs)
        = map trim (butlast (substring ?md ?off ?e # slices)) @ [last (substring ?md ?off ?e # slices)]"
      using mp ne ck by simp
    show ?thesis
      using chain cc' mp'
      by (intro exI [of _ "?r # rs"] exI [of _ "substring ?md ?off ?e # slices"]) simp
  qed
qed

section \<open>Claims about the round trip\<close>

text \<open>
  Claim C4, amended. For every fetched document whose extracted fragment has no
  heading and every in-range \<open>maxChars\<close>, fetching and then continuing with each
  returned token ends with a null token after at most as many calls as the
  converted text has characters, plus one. The chunks, markers removed, are the
  consecutive slices of the converted text, each slice but the last one trimmed;
  so their concatenation equals the full converted text once white space is
  deleted from both, and differs from it at most in white space at the cuts.
\<close>

theorem chain_reassembles_trimmed_slices:
  assumes "truthy (o_continuationToken options) = None"
    and "fetchAndExtract P options w = (Inr (u, ex, m), w1)"
    and "extractHeadings (x_html ex) = []"
    and "length (turndown P (x_html ex)) < fuel"
  shows "\<exists>rs slices. fetchChain fuel P clock options w = Some rs
      \<and> concat slices = turndown P (x_html ex)
      \<and> slices \<noteq> []
      \<and> map chunkText rs = map trim (butlast slices) @ [last slices]
      \<and> filter (\<lambda>c. \<not> isWhiteSpace c) (reassemble rs)
          = filter (\<lambda>c. \<not> isWhiteSpace c) (turndown P (x_html ex))"
proof -
  let ?md = "turndown P (x_html ex)"
  let ?n = "requestedMaxChars options"
  obtain f where fuel: "fuel = Suc f" using assms(4) by (cases fuel) simp_all
  have n: "0 < ?n" "0 \<le> ?n" using fetchAndExtract_in_range [OF assms(2)] by linarith+
  let ?t = "truncateMarkdown ?md ?n 0"
  let ?k = "generateCacheKey (clock f) u ''continuation'' (nextOffset ?t)"
  let ?c = "\<lparr>c_markdown = ?md, c_offset = nextOffset ?t, c_url = u, c_title = x_title ex,
             c_method = m, c_timestamp = clock f\<rparr>"
  let ?r = "\<lparr>r_title = x_title ex, r_url = u, r_markdown = markdown ?t, r_toc = None,
             r_continuationToken = (if hasMore ?t then Some ?k else None), r_method = m\<rparr>"
  let ?w' = "w1\<lparr>contentCache :=
       (if hasMore ?t then (contentCache w1)(?k \<mapsto> ?c) else contentCache w1)\<rparr>"
  have call: "fetchWebPage P (clock f) options w = (Inr ?r, ?w')"
    unfolding fetchWebPage_initial [OF assms(1)] assms(2)
    by (simp add: renderResult_no_headings [OF assms(3)])
  have main: "\<exists>rs slices. fetchChain fuel P clock options w = Some rs
      \<and> concat slices = ?md \<and> slices \<noteq> []
      \<and> map chunkText rs = map trim (butlast slices) @ [last slices]"
  proof (cases "hasMore ?t")
    case False
    have "fetchChain fuel P clock options w = Some [?r]"
      unfolding fuel using call False by simp
    moreover have "chunkText ?r = ?md"
      using False not_hasMore_rest [OF False] by (simp add: chunkText_def)
    ultimately show ?thesis
      by (intro exI [of _ "[?r]"] exI [of _ "[?md]"]) simp
  next
    case True
    let ?e = "cutEnd ?md ?n 0"
    from hasMore_cut [OF True]
    have nf: "\<not> int (length ?md) - 0 \<le> ?n"
      and t: "?t = \<lparr>markdown = trim (substring ?md 0 ?e) @ truncationMarker,
         hasMore = True, nextOffset = ?e, originalLength = Some (int (length ?md))\<rparr>"
      by simp_all
    have e: "nextOffset ?t = ?e" by (simp add: t)
    have adv: "0 < ?e" by (rule cutEnd_advances [OF n(1)])
    have below: "?e < int (length ?md)" by (rule cutEnd_less_length [OF nf])
    let ?o' = "continueWith options ?k"
    have p1: "0 < requestedMaxChars ?o'" using n(1) by (simp add: continueWith_requested)
    have p2: "truthy (o_continuationToken ?o') = Some ?k" by (rule continueWith_truthy)
    have p3: "contentCache ?w' ?k = Some ?c" using True by simp
    have p4: "0 \<le> c_offset ?c" using adv e by simp
    have p5: "c_offset ?c \<le> int (length (c_markdown ?c))" using below e by simp
    have p6: "int (length (c_markdown ?c)) - c_offset ?c < int f"
      using assms(4) adv e unfolding fuel by simp
    from chain_from_entry [OF p1 p2 p3 p4 p5 p6, of P clock]
    obtain rs slices where
      rs: "fetchChain f P clock ?o' ?w' = Some rs"
      and cc: "concat slices = drop (nat (c_offset ?c)) (c_markdown ?c)"
      and ne: "slices \<noteq> []"
      and mp: "map chunkText rs = map trim (butlast slices) @ [last slices]"
      by blast
    have chain: "fetchChain fuel P clock options w = Some (?r # rs)"
      unfolding fuel using call True rs by simp
    have ck: "chunkText ?r = trim (substring ?md 0 ?e)"
      by (rule chunkText_cut [where k = ?k]) (simp_all add: True t)
    have "substring ?md 0 ?e @ drop (nat ?e) ?md = drop (nat 0) ?md"
      using slice_then_rest [of 0 ?e ?md] adv below by simp
    then have cc': "concat (substring ?md 0 ?e # slices) = ?md"
      using cc e by simp
    have mp': "map chunkText (?r # rs)
        = map trim (butlast (substring ?md 0 ?e # slices)) @ [last (substring ?md 0 ?e # slices)]"
      using mp ne ck by simp
    show ?thesis
      using chain cc' mp'
      by (intro exI [of _ "?r # rs"] exI [of _ "substring ?md 0 ?e # slices"]) simp
  qed
  then obtain rs slices where
    1: "fetchChain fuel P clock options w = Some rs"
    and 2: "concat slices = ?md" and 3: "slices \<noteq> []"
    and 4: "map chunkText rs = map trim (butlast slices) @ [last slices]"
    by blast
  have "filter (\<lambda>c. \<not> isWhiteSpace c) (reassemble rs)
      = filter (\<lambda>c. \<not> isWhiteSpace c) ?md"
    unfolding reassemble_def 4 filter_trimmed_slices [OF 3] 2 ..
  with 1 2 3 4 show ?thesis by blast
qed

section \<open>The page with a space at the cut\<close>

lemma length_spacedText: "length spacedText = 300"
  by (simp add: spacedText_def)

lemma spacedText_plain:
  "CHR ''<'' \<notin> set spacedText" "CHR ''\<newline>'' \<notin> set spacedText" "spacedText \<noteq> headedPage"
proof -
  show "CHR ''<'' \<notin> set spacedText" "CHR ''\<newline>'' \<notin> set spacedText"
    by (auto simp: spacedText_def)
  have "length headedPage = 310" by (simp add: headedPage_def longText_def)
  then show "spacedText \<noteq> headedPage" using length_spacedText by auto
qed

lemma truncate_spaced:
  "truncateMarkdown spacedText 200 0 =
     \<lparr>markdown = replicate 199 (CHR ''a'') @ truncationMarker, hasMore = True,
      nextOffset = 200, originalLength = Some 300\<rparr>"
proof -
  have c: "cutEnd spacedText 200 0 = 200"
    using cutEnd_no_newline [OF spacedText_plain(2), of 0 200] by simp
  have s: "substring spacedText 0 200 = replicate 199 (CHR ''a'') @ '' ''"
    using substring_inside [of 0 200 spacedText] by (simp add: spacedText_def)
  have t: "trim (replicate 199 (CHR ''a'') @ '' '') = replicate 199 (CHR ''a'')"
    unfolding trim_def
    by (simp add: isWhiteSpace_def dropWhile_append dropWhile_replicate)
  show ?thesis
    using truncate_cut [of 0 spacedText 200] by (simp add: c s t length_spacedText)
qed

lemma truncate_spaced_rest:
  "truncateMarkdown spacedText 200 200 =
     \<lparr>markdown = replicate 100 (CHR ''b''), hasMore = False, nextOffset = 300,
      originalLength = None\<rparr>"
  using truncate_fits [of 200 spacedText 200] by (simp add: spacedText_def)

lemma truncate_spaced_whole:
  "truncateMarkdown spacedText 200000 0 =
     \<lparr>markdown = spacedText, hasMore = False, nextOffset = 300, originalLength = None\<rparr>"
  using truncate_fits [of 0 spacedText 200000] by (simp add: length_spacedText)

lemma fetch_spaced:
  assumes "200 \<le> n" "n \<le> 200000"
  shows "fetchWebPage plainPlatform now (firstRequest spacedText n) emptyWorld =
     (Inr (fst (renderResult plainPlatform now n None
             (''https://example.com/long'',
              \<lparr>x_html = spacedText, x_title = ''Untitled'', x_excerpt = None\<rparr>, ''basic-clean'')
             Map.empty)),
      \<lparr>contentCache = snd (renderResult plainPlatform now n None
             (''https://example.com/long'',
              \<lparr>x_html = spacedText, x_title = ''Untitled'', x_excerpt = None\<rparr>, ''basic-clean'')
             Map.empty),
       transportCalls =
         [\<lparr>q_input = ''https://example.com/long'', q_userAgent = DEFAULT_USER_AGENT,
           q_timeout = DEFAULT_TIMEOUT_MS\<rparr>]\<rparr>)"
proof -
  have t: "truthy (o_continuationToken (firstRequest spacedText n)) = None"
    by (simp add: firstRequest_def truthy_def)
  have f: "fetchAndExtract plainPlatform (firstRequest spacedText n) emptyWorld =
     (Inr (''https://example.com/long'',
           \<lparr>x_html = spacedText, x_title = ''Untitled'', x_excerpt = None\<rparr>, ''basic-clean''),
      emptyWorld\<lparr>transportCalls := transportCalls emptyWorld @
           [\<lparr>q_input = ''https://example.com/long'', q_userAgent = DEFAULT_USER_AGENT,
             q_timeout = DEFAULT_TIMEOUT_MS\<rparr>]\<rparr>)"
    by (rule fetchAndExtract_plain) (use assms in \<open>simp_all add: length_spacedText\<close>)
  have m: "requestedMaxChars (firstRequest spacedText n) = n"
    "o_headings (firstRequest spacedText n) = None"
    by (simp_all add: requestedMaxChars_def firstRequest_def)
  show ?thesis
    unfolding fetchWebPage_initial [OF t] f m by (simp add: emptyWorld_def)
qed

text \<open>
  Claim C4 as stated fails where a cut falls after white space: the page of 199
  letters, a space and 100 letters, fetched with \<open>maxChars = 200\<close> and continued
  once, comes back as two chunks whose concatenation has lost the space, while a
  single fetch with \<open>maxChars = 200000\<close> returns the text whole.
\<close>

theorem chain_loses_space_at_cut:
  "map_option reassemble (fetchChain 3 plainPlatform ticks (firstRequest spacedText 200) emptyWorld)
     = Some (replicate 199 (CHR ''a'') @ replicate 100 (CHR ''b''))
   \<and> map_sum id r_markdown
        (fst (fetchWebPage plainPlatform 0 (firstRequest spacedText 200000) emptyWorld))
     = Inr spacedText
   \<and> replicate 199 (CHR ''a'') @ replicate 100 (CHR ''b'') \<noteq> spacedText"
proof -
  let ?u = "''https://example.com/long''"
  let ?k = "generateCacheKey (ticks (Suc (Suc 0))) ?u ''continuation'' 200"
  let ?e = "\<lparr>c_markdown = spacedText, c_offset = 200, c_url = ?u, c_title = ''Untitled'',
             c_method = ''basic-clean'', c_timestamp = ticks (Suc (Suc 0))\<rparr>"
  let ?calls = "[\<lparr>q_input = ?u, q_userAgent = DEFAULT_USER_AGENT, q_timeout = DEFAULT_TIMEOUT_MS\<rparr>]"
  let ?w = "\<lparr>contentCache = [?k \<mapsto> ?e], transportCalls = ?calls\<rparr>"
  let ?r1 = "\<lparr>r_title = ''Untitled'', r_url = ?u,
           r_markdown = replicate 199 (CHR ''a'') @ truncationMarker, r_toc = None,
           r_continuationToken = Some ?k, r_method = ''basic-clean''\<rparr>"
  let ?r2 = "\<lparr>r_title = ''Untitled'', r_url = ?u,
           r_markdown = replicate 100 (CHR ''b''), r_toc = None,
           r_continuationToken = None, r_method = ''basic-clean''\<rparr>"
  have first: "fetchWebPage plainPlatform (ticks (Suc (Suc 0))) (firstRequest spacedText 200) emptyWorld
      = (Inr ?r1, ?w)"
    using fetch_spaced [of 200 "ticks (Suc (Suc 0))"]
    by (simp add: renderResult_plain [OF spacedText_plain(1,3)] truncate_spaced)
  have t2: "truthy (o_continuationToken (continueWith (firstRequest spacedText 200) ?k)) = Some ?k"
    by (rule continueWith_truthy)
  have second: "fetchWebPage plainPlatform (ticks (Suc 0)) (continueWith (firstRequest spacedText 200) ?k) ?w
      = (Inr ?r2, ?w)"
    unfolding fetchWebPage_continuation [OF t2] continueWith_maxChars
    by (simp add: handleContinuation_hit truncate_spaced_rest)
  have chain: "fetchChain 3 plainPlatform ticks (firstRequest spacedText 200) emptyWorld
      = Some [?r1, ?r2]"
    unfolding numeral_3_eq_3 by (simp add: first second)
  have re: "reassemble [?r1, ?r2] = replicate 199 (CHR ''a'') @ replicate 100 (CHR ''b'')"
    unfolding reassemble_def chunkText_def by simp
  have whole: "fetchWebPage plainPlatform 0 (firstRequest spacedText 200000) emptyWorld
      = (Inr \<lparr>r_title = ''Untitled'', r_url = ?u, r_markdown = spacedText, r_toc = None,
           r_continuationToken = None, r_method = ''basic-clean''\<rparr>,
         \<lparr>contentCache = Map.empty, transportCalls = ?calls\<rparr>)"
    using fetch_spaced [of 200000 0]
    by (simp add: renderResult_plain [OF spacedText_plain(1,3)] truncate_spaced_whole)
  have ne: "replicate 199 (CHR ''a'') @ replicate 100 (CHR ''b'') \<noteq> spacedText"
  proof
    assume "replicate 199 (CHR ''a'') @ replicate 100 (CHR ''b'') = spacedText"
    then have "length (replicate 199 (CHR ''a'') @ replicate 100 (CHR ''b'')) = length spacedText"
      by simp
    then show False by (simp add: length_spacedText)
  qed
  show ?thesis
    unfolding chain whole using re ne by simp
qed

theorem chain_reassembles_trimmed_slices_witness:
  "truthy (o_continuationToken (firstRequest spacedText 200)) = None
   \<and> fst (fetchAndExtract plainPlatform (firstRequest spacedText 200) emptyWorld)
       = Inr (''https://example.com/long'',
              \<lparr>x_html = spacedText, x_title = ''Untitled'', x_excerpt = None\<rparr>, ''basic-clean'')
   \<and> extractHeadings spacedText = []
   \<and> length (turndown plainPlatform spacedText) < 301
   \<and> (\<exists>rs. fetchChain 301 plainPlatform ticks (firstRequest spacedText 200) emptyWorld = Some rs
         \<and> filter (\<lambda>c. \<not> isWhiteSpace c) (reassemble rs)
             = filter (\<lambda>c. \<not> isWhiteSpace c) spacedText)"
proof -
  have t: "truthy (o_continuationToken (firstRequest spacedText 200)) = None"
    by (simp add: firstRequest_def truthy_def)
  have f: "fetchAndExtract plainPlatform (firstRequest spacedText 200) emptyWorld =
     (Inr (''https://example.com/long'',
           \<lparr>x_html = spacedText, x_title = ''Untitled'', x_excerpt = None\<rparr>, ''basic-clean''),
      emptyWorld\<lparr>transportCalls := transportCalls emptyWorld @
           [\<lparr>q_input = ''https://example.com/long'', q_userAgent = DEFAULT_USER_AGENT,
             q_timeout = DEFAULT_TIMEOUT_MS\<rparr>]\<rparr>)"
    by (rule fetchAndExtract_plain) (simp_all add: length_spacedText)
  have h: "extractHeadings (x_html \<lparr>x_html = spacedText, x_title = ''Untitled'', x_excerpt = None\<rparr>) = []"
    using extractHeadings_no_tag [OF spacedText_plain(1)] by simp
  have td: "turndown plainPlatform spacedText = spacedText"
    using spacedText_plain(3) by (simp add: plainPlatform_def)
  have l: "length (turndown plainPlatform
      (x_html \<lparr>x_html = spacedText, x_title = ''Untitled'', x_excerpt = None\<rparr>)) < 301"
    by (simp add: td length_spacedText)
  show ?thesis
    using chain_reassembles_trimmed_slices [OF t f h l, of ticks] t f h l td
    by auto
qed

end
